theory Spec2Isabelle
  imports Complex_Main "HOL-Library.Char_ord" "HOL-Library.List_Lexorder" "HOL-Library.Multiset"
begin

section \<open>The row atlas allocator of rts/Rendering/Textures/RowAtlasAlloc.cpp\<close>

text \<open>
  The allocator packs named images into horizontal rows of one growable surface.
  C++ \<open>int\<close> values are modelled as unbounded integers: signed overflow is undefined
  behaviour in C++, so the model describes the executions in which no intermediate value
  leaves the range of \<open>int\<close>.

  The declarations of the class and of the types it uses (RowAtlasAlloc.h,
  IAtlasAllocator.h) are not part of the sources.  The records below list the fields that
  the functions of RowAtlasAlloc.cpp read and write, under the names the functions use;
  the two components of a size are two fields.  The value that \<open>GetMinDim()\<close> returns is
  a parameter of the model, the field \<open>minDim\<close>.
\<close>

subsection \<open>Data\<close>

record Row =
  position :: int
  height :: int
  width :: int

definition new_Row :: "int \<Rightarrow> int \<Rightarrow> Row" where
  \<comment> \<open>Modelled from the spec: the constructor \<open>Row(position, height)\<close> that
      \<open>emplace_back\<close> calls is declared in RowAtlasAlloc.h, which is missing; a row is
      created with the given position and height and with used width 0.\<close>
  "new_Row ypos h = \<lparr>position = ypos, height = h, width = 0\<rparr>"

text \<open>
  The rectangle of an entry.  The program assigns integers to its four components, and
  they are kept as integers here.
\<close>

record float4 =
  x1 :: int
  y1 :: int
  x2 :: int
  y2 :: int

record SAtlasEntry =
  size_x :: int
  size_y :: int
  name :: string
  texCoords :: float4

text \<open>
  \<open>entries\<close> is the registry (an unordered map from names to entries).  It is kept as
  the list of its key/value pairs in the iteration order of the container, an order the
  program has no control over; the keys of a map are pairwise different.
\<close>

record CRowAtlasAlloc =
  entries :: "(string \<times> SAtlasEntry) list"
  atlasSize_x :: int
  atlasSize_y :: int
  maxsize_x :: int
  maxsize_y :: int
  numLevels :: int
  minDim :: int
  nextRowPos :: int
  imageRows :: "Row list"

subsection \<open>Bit operations and single precision arithmetic\<close>

text \<open>
  \<open>std::bit_width\<close> and \<open>std::bit_ceil\<close> on the value of an unsigned 32 bit argument
  (\<open>std::bit_ceil\<close> is undefined above \<open>2 ^ 31\<close>).
\<close>

function bit_width :: "int \<Rightarrow> nat" where
  "bit_width n = (if n \<le> 0 then 0 else Suc (bit_width (n div 2)))"
  by pat_completeness auto
termination
  by (relation "measure nat") auto

declare bit_width.simps [simp del]

definition bit_ceil :: "int \<Rightarrow> int" where
  "bit_ceil n = (if n \<le> 1 then 1 else 2 ^ bit_width (n - 1))"

text \<open>
  The two comparisons of the program that are made in \<open>float\<close> are modelled exactly, for
  IEEE binary32 arithmetic in the default rounding mode: a binary32 value is the rational
  number it denotes, and every conversion and operation rounds to the nearest binary32
  value, ties to even.  A \<open>float\<close> is a finite value, an infinity or a NaN;
  \<open>float32_quot n d\<close> is the quotient of the integers \<open>n\<close> and \<open>d\<close> in binary32: the
  binary32 value nearest to \<open>n / d\<close>, and for \<open>d = 0\<close> the infinity with the sign of \<open>n\<close>,
  or a NaN when \<open>n = 0\<close> as well.  The exponent range is left out: the finite values that
  occur are quotients and products of 32 bit integers, far from overflow and underflow.
  \<open>fless\<close> and \<open>feq\<close> are the operators \<open><\<close> and \<open>==\<close> on \<open>float\<close>: every comparison
  with a NaN is false.
\<close>

datatype float32 = Finite rat | PInf | NInf | NaN

fun fless :: "float32 \<Rightarrow> float32 \<Rightarrow> bool" where
  "fless (Finite a) (Finite b) = (a < b)"
| "fless (Finite a) PInf = True"
| "fless NInf (Finite b) = True"
| "fless NInf PInf = True"
| "fless a b = False"

fun feq :: "float32 \<Rightarrow> float32 \<Rightarrow> bool" where
  "feq (Finite a) (Finite b) = (a = b)"
| "feq PInf PInf = True"
| "feq NInf NInf = True"
| "feq a b = False"

definition pow2 :: "int \<Rightarrow> rat" where
  "pow2 e = (if 0 \<le> e then 2 ^ nat e else 1 / 2 ^ nat (- e))"

definition round_half_even :: "int \<Rightarrow> int \<Rightarrow> int" where
  "round_half_even n d =
     (let f = n div d; r = n mod d
      in if 2 * r < d then f else if d < 2 * r then f + 1 else if even f then f else f + 1)"

definition float32_pos :: "int \<Rightarrow> int \<Rightarrow> rat" where
  "float32_pos n d =
     (let b = int (bit_width n) - int (bit_width d);
          e = (if (if 0 \<le> b then d * 2 ^ nat b \<le> n else d \<le> n * 2 ^ nat (- b))
               then b else b - 1);
          sh = 23 - e;
          m = (if 0 \<le> sh then round_half_even (n * 2 ^ nat sh) d
               else round_half_even n (d * 2 ^ nat (- sh)))
      in of_int m * pow2 (- sh))"

definition float32_quot :: "int \<Rightarrow> int \<Rightarrow> float32" where
  "float32_quot n d =
     (if d = 0 then (if 0 < n then PInf else if n < 0 then NInf else NaN)
      else if n = 0 then Finite 0
      else Finite (of_int (sgn n * sgn d) * float32_pos \<bar>n\<bar> \<bar>d\<bar>))"

definition float_of_int :: "int \<Rightarrow> int" where
  \<comment> \<open>the conversion of an \<open>int\<close> to \<open>float\<close>; its value is again an integer\<close>
  "float_of_int i =
     (let sh = int (bit_width \<bar>i\<bar>) - 24
      in if sh \<le> 0 then i
         else sgn i * round_half_even \<bar>i\<bar> (2 ^ nat sh) * 2 ^ nat sh)"

definition fdiv :: "int \<Rightarrow> int \<Rightarrow> float32" where
  \<comment> \<open>the quotient of two converted integers\<close>
  "fdiv a b = float32_quot a b"

definition fmul_1_2f :: "int \<Rightarrow> float32" where
  \<comment> \<open>the product with the literal \<open>1.2f\<close>, whose value is \<open>5033165 / 4194304\<close>\<close>
  "fmul_1_2f a = float32_quot (a * 5033165) 4194304"

subsection \<open>CompareTex\<close>

definition CompareTex :: "SAtlasEntry \<Rightarrow> SAtlasEntry \<Rightarrow> bool" where
  "CompareTex tex1 tex2 =
     (if size_y tex1 > size_y tex2 then True
      else if size_y tex2 > size_y tex1 then False
      else if size_x tex1 > size_x tex2 then True
      else if size_x tex2 > size_x tex1 then False
      else if name tex1 > name tex2 then True
      else if name tex2 > name tex1 then False
      else False)"

subsection \<open>EstimateNeededSize\<close>

definition slack_missing :: "int \<Rightarrow> int \<Rightarrow> bool" where
  \<comment> \<open>\<open>spaceFree < spaceNeeded * 1.2f\<close>\<close>
  "slack_missing spaceFree spaceNeeded =
     fless (Finite (of_int (float_of_int spaceFree))) (fmul_1_2f (float_of_int spaceNeeded))"

definition EstimateResize :: "int \<times> CRowAtlasAlloc \<Rightarrow> int \<times> CRowAtlasAlloc" where
  \<comment> \<open>the body of the loop after the \<open>break\<close> test: the two guarded doublings\<close>
  "EstimateResize p =
     (let (spaceFree, s) = p;
          (spaceFree1, s1) =
            (if 2 * atlasSize_x s \<le> maxsize_x s
             then (spaceFree + atlasSize_x s * atlasSize_y s,
                   s\<lparr>atlasSize_x := min (maxsize_x s) (2 * atlasSize_x s)\<rparr>)
             else (spaceFree, s))
      in if 2 * atlasSize_y s1 \<le> maxsize_y s1
         then (spaceFree1 + atlasSize_x s1 * atlasSize_y s1,
               s1\<lparr>atlasSize_y := min (maxsize_y s1) (2 * atlasSize_y s1)\<rparr>)
         else (spaceFree1, s1))"

partial_function (option) EstimateLoop ::
  "int \<Rightarrow> int \<times> CRowAtlasAlloc \<Rightarrow> (int \<times> CRowAtlasAlloc) option" where
  "EstimateLoop spaceNeeded p =
     (if slack_missing (fst p) spaceNeeded then
        if atlasSize_x (snd p) \<ge> maxsize_x (snd p) \<and> atlasSize_y (snd p) \<ge> maxsize_y (snd p)
        then Some p
        else EstimateLoop spaceNeeded (EstimateResize p)
      else Some p)"

declare EstimateLoop.simps [code]

definition spaceNeeded_of :: "CRowAtlasAlloc \<Rightarrow> int" where
  "spaceNeeded_of s = foldl (\<lambda>acc it. acc + size_x (snd it) * size_y (snd it)) 0 (entries s)"

definition spaceFree_of :: "CRowAtlasAlloc \<Rightarrow> int" where
  "spaceFree_of s =
     foldl (\<lambda>acc row. acc + height row * (atlasSize_x s - width row))
       (atlasSize_x s * (atlasSize_y s - nextRowPos s)) (imageRows s)"

definition EstimateNeededSize :: "CRowAtlasAlloc \<Rightarrow> CRowAtlasAlloc option" where
  \<comment> \<open>the local \<open>spaceFree\<close> is dropped on return\<close>
  "EstimateNeededSize s =
     map_option snd (EstimateLoop (spaceNeeded_of s) (spaceFree_of s, s))"

subsection \<open>AddRow\<close>

text \<open>
  A \<open>Row*\<close> is the index of the row in \<open>imageRows\<close>; \<open>nullptr\<close> is \<open>None\<close>.  The outer
  \<open>option\<close> of a result is \<open>None\<close> when the call does not return.
\<close>

definition ResizeTexture :: "CRowAtlasAlloc \<Rightarrow> CRowAtlasAlloc" where
  "ResizeTexture s =
     s\<lparr>atlasSize_x := min (maxsize_x s) (2 * atlasSize_x s),
       atlasSize_y := min (maxsize_y s) (2 * atlasSize_y s)\<rparr>"

partial_function (option) AddRow_grow ::
  "int \<Rightarrow> CRowAtlasAlloc \<Rightarrow> (bool \<times> CRowAtlasAlloc) option" where
  "AddRow_grow wantedRowHeight s =
     (if atlasSize_y s < nextRowPos s + wantedRowHeight then
        if atlasSize_x s \<ge> maxsize_x s \<and> atlasSize_y s \<ge> maxsize_y s then Some (False, s)
        else AddRow_grow wantedRowHeight (ResizeTexture s)
      else Some (True, s))"

declare AddRow_grow.simps [code]

definition AddRow :: "CRowAtlasAlloc \<Rightarrow> int \<Rightarrow> int \<Rightarrow> (nat option \<times> CRowAtlasAlloc) option" where
  "AddRow s glyphWidth glyphHeight =
     (case AddRow_grow glyphHeight s of
        None \<Rightarrow> None
      | Some (False, s1) \<Rightarrow> Some (None, s1)
      | Some (True, s1) \<Rightarrow>
          Some (Some (length (imageRows s1)),
                s1\<lparr>imageRows := imageRows s1 @ [new_Row (nextRowPos s1) glyphHeight],
                   nextRowPos := nextRowPos s1 + glyphHeight\<rparr>))"

subsection \<open>FindRow\<close>

fun FindRow_loop ::
  "int \<Rightarrow> int \<Rightarrow> int \<Rightarrow> Row list \<Rightarrow> nat \<Rightarrow> int \<times> float32 \<times> nat option \<Rightarrow>
     int \<times> float32 \<times> nat option" where
  "FindRow_loop ax glyphWidth glyphHeight [] i best = best"
| "FindRow_loop ax glyphWidth glyphHeight (row # rows) i (bestWidth, bestRatio, bestRow) =
     (if glyphWidth > ax - width row
      then FindRow_loop ax glyphWidth glyphHeight rows (Suc i) (bestWidth, bestRatio, bestRow)
      else if glyphHeight > height row
      then FindRow_loop ax glyphWidth glyphHeight rows (Suc i) (bestWidth, bestRatio, bestRow)
      else
        let ratio = fdiv (float_of_int (height row)) (float_of_int glyphHeight)
        in if fless ratio bestRatio \<or> (feq ratio bestRatio \<and> width row < bestWidth)
           then FindRow_loop ax glyphWidth glyphHeight rows (Suc i) (width row, ratio, Some i)
           else FindRow_loop ax glyphWidth glyphHeight rows (Suc i)
                  (bestWidth, bestRatio, bestRow))"

definition FindRow :: "CRowAtlasAlloc \<Rightarrow> int \<Rightarrow> int \<Rightarrow> (nat option \<times> CRowAtlasAlloc) option" where
  "FindRow s glyphWidth glyphHeight =
     (case FindRow_loop (atlasSize_x s) glyphWidth glyphHeight (imageRows s) 0
             (atlasSize_x s, Finite 10000, None) of
        (bestWidth, bestRatio, None) \<Rightarrow> AddRow s glyphWidth glyphHeight
      | (bestWidth, bestRatio, Some i) \<Rightarrow> Some (Some i, s))"

subsection \<open>GetNumTexLevels and Allocate\<close>

text \<open>
  The padding \<open>1 << GetNumTexLevels()\<close> is \<open>2 ^ nat (GetNumTexLevels s)\<close>; the shift is
  undefined for a negative number of levels.
\<close>

definition GetNumTexLevels :: "CRowAtlasAlloc \<Rightarrow> int" where
  "GetNumTexLevels s = min (int (bit_width (minDim s mod 2 ^ 32))) (numLevels s)"

fun insert_sorted :: "('a \<Rightarrow> 'a \<Rightarrow> bool) \<Rightarrow> 'a \<Rightarrow> 'a list \<Rightarrow> 'a list" where
  "insert_sorted cmp a [] = [a]"
| "insert_sorted cmp a (b # bs) =
     (if cmp b a then b # insert_sorted cmp a bs else a # b # bs)"

definition stable_sort :: "('a \<Rightarrow> 'a \<Rightarrow> bool) \<Rightarrow> 'a list \<Rightarrow> 'a list" where
  \<comment> \<open>\<open>std::stable_sort\<close>: sorted for \<open>cmp\<close>, equivalent elements keep their order\<close>
  "stable_sort cmp xs = foldr (insert_sorted cmp) xs []"

definition memtextures_of :: "CRowAtlasAlloc \<Rightarrow> (string \<times> SAtlasEntry) list" where
  \<comment> \<open>\<open>memtextures\<close>: pointers to the entries, taken in ascending order of the keys
      (\<open>sortedNames\<close>) and then sorted with \<open>CompareTex\<close>.  A pointer is the key together
      with the entry as it is when the list is built; the loop reads the size from it
      and writes the rectangle into the registry under the key.\<close>
  "memtextures_of s =
     stable_sort (\<lambda>tex1 tex2. CompareTex (snd tex1) (snd tex2)) (sort_key fst (entries s))"

definition set_texCoords :: "string \<Rightarrow> float4 \<Rightarrow> (string \<times> SAtlasEntry) list \<Rightarrow> (string \<times> SAtlasEntry) list" where
  \<comment> \<open>the four assignments to \<open>curtex->texCoords\<close>\<close>
  "set_texCoords k tc es = map (\<lambda>(k', e). if k' = k then (k', e\<lparr>texCoords := tc\<rparr>) else (k', e)) es"

definition place_one ::
  "string \<times> SAtlasEntry \<Rightarrow> int \<Rightarrow> CRowAtlasAlloc \<Rightarrow> (nat option \<times> CRowAtlasAlloc) option" where
  \<comment> \<open>the body of the placement loop for one entry; the row that \<open>FindRow\<close> returned is
      passed on to the loop\<close>
  "place_one tex padding s =
     (let k = fst tex; curtex = snd tex
      in case FindRow s (size_x curtex + padding) (size_y curtex + padding) of
           None \<Rightarrow> None
         | Some (None, s1) \<Rightarrow> Some (None, s1)
         | Some (Some i, s1) \<Rightarrow>
             let row = imageRows s1 ! i;
                 tc = \<lparr>x1 = width row, y1 = position row,
                       x2 = width row + size_x curtex, y2 = position row + size_y curtex\<rparr>
             in Some (Some i,
                  s1\<lparr>entries := set_texCoords k tc (entries s1),
                     imageRows := (imageRows s1)
                       [i := row\<lparr>width := width row + (size_x curtex + padding)\<rparr>]\<rparr>))"

fun place ::
  "(string \<times> SAtlasEntry) list \<Rightarrow> int \<Rightarrow> bool \<Rightarrow> CRowAtlasAlloc \<Rightarrow> (bool \<times> CRowAtlasAlloc) option" where
  "place [] padding success s = Some (success, s)"
| "place (tex # rest) padding success s =
     (case place_one tex padding s of
        None \<Rightarrow> None
      | Some (None, s1) \<Rightarrow> place rest padding False s1
      | Some (Some i, s1) \<Rightarrow> place rest padding success s1)"

definition Allocate :: "CRowAtlasAlloc \<Rightarrow> (bool \<times> CRowAtlasAlloc) option" where
  "Allocate s =
     (let s0 = s\<lparr>atlasSize_y := bit_ceil (atlasSize_y s mod 2 ^ 32)\<rparr>
      in case EstimateNeededSize s0 of
           None \<Rightarrow> None
         | Some s1 \<Rightarrow>
             let memtextures = memtextures_of s1;
                 padding = 2 ^ nat (GetNumTexLevels s1)
             in case place memtextures padding True s1 of
                  None \<Rightarrow> None
                | Some (success, s2) \<Rightarrow> Some (success, s2\<lparr>atlasSize_y := nextRowPos s2\<rparr>))"

subsection \<open>The properties, in the words of the specification\<close>


subsection \<open>Concrete allocators\<close>

definition mk_entry :: "string \<Rightarrow> int \<Rightarrow> int \<Rightarrow> string \<times> SAtlasEntry" where
  \<comment> \<open>an image registered under its name, with an empty rectangle\<close>
  "mk_entry n w h =
     (n, \<lparr>size_x = w, size_y = h, name = n, texCoords = \<lparr>x1 = 0, y1 = 0, x2 = 0, y2 = 0\<rparr>\<rparr>)"

definition mk_alloc :: "int \<Rightarrow> int \<Rightarrow> int \<Rightarrow> int \<Rightarrow> (string \<times> SAtlasEntry) list \<Rightarrow> CRowAtlasAlloc" where
  \<comment> \<open>a fresh allocator: no rows, one mip level, smallest dimension 10 (padding 2)\<close>
  "mk_alloc w h mw mh es =
     \<lparr>entries = es, atlasSize_x = w, atlasSize_y = h, maxsize_x = mw, maxsize_y = mh,
      numLevels = 1, minDim = 10, nextRowPos = 0, imageRows = []\<rparr>"

definition scenario :: CRowAtlasAlloc where
  \<comment> \<open>the scenario of the specification: 64 x 64, at most 256 x 256, entries A, B, C\<close>
  "scenario = mk_alloc 64 64 256 256
     [mk_entry ''C'' 60 10, mk_entry ''A'' 50 20, mk_entry ''B'' 40 20]"

definition at_max :: "CRowAtlasAlloc \<Rightarrow> bool" where
  \<comment> \<open>both axes have reached their configured maximum\<close>
  "at_max s \<longleftrightarrow> maxsize_x s \<le> atlasSize_x s \<and> maxsize_y s \<le> atlasSize_y s"


definition stuck :: "int \<Rightarrow> int \<times> CRowAtlasAlloc \<Rightarrow> bool" where
  \<comment> \<open>the estimator wants more space, is not at the maximum, and can double neither axis\<close>
  "stuck spaceNeeded p \<longleftrightarrow>
     slack_missing (fst p) spaceNeeded \<and> \<not> at_max (snd p) \<and> EstimateResize p = p"

definition stuck_alloc :: CRowAtlasAlloc where
  \<comment> \<open>64 x 64, at most 100 x 100, one entry of 64 x 64\<close>
  "stuck_alloc = mk_alloc 64 64 100 100 [mk_entry ''A'' 64 64]"

definition eligible :: "int \<Rightarrow> int \<Rightarrow> int \<Rightarrow> Row \<Rightarrow> bool" where
  \<comment> \<open>the row has the requested width left and is at least as high as requested\<close>
  "eligible ax gw gh row \<longleftrightarrow> gw \<le> ax - width row \<and> gh \<le> height row"

definition row_ratio :: "int \<Rightarrow> Row \<Rightarrow> float32" where
  "row_ratio gh row = fdiv (float_of_int (height row)) (float_of_int gh)"

definition row_key :: "int \<Rightarrow> Row \<Rightarrow> float32 \<times> int" where
  "row_key gh row = (row_ratio gh row, width row)"

definition beats :: "float32 \<times> int \<Rightarrow> float32 \<times> int \<Rightarrow> bool" where
  \<comment> \<open>smaller ratio, or the same ratio and smaller used width, as \<open>float\<close> compares\<close>
  "beats a b \<longleftrightarrow> fless (fst a) (fst b) \<or> (feq (fst a) (fst b) \<and> snd a < snd b)"

definition chosen :: "int \<Rightarrow> int \<Rightarrow> int \<Rightarrow> Row list \<Rightarrow> float32 \<times> int \<Rightarrow> nat \<Rightarrow> bool" where
  \<comment> \<open>row \<open>j\<close> is eligible, beats the initial best, no eligible row beats it, and it beats
      every eligible row before it\<close>
  "chosen ax gw gh rows init j \<longleftrightarrow>
     j < length rows \<and> eligible ax gw gh (rows ! j) \<and> beats (row_key gh (rows ! j)) init \<and>
     (\<forall>k<length rows. eligible ax gw gh (rows ! k) \<longrightarrow>
        \<not> beats (row_key gh (rows ! k)) (row_key gh (rows ! j)) \<and>
        (k < j \<longrightarrow> beats (row_key gh (rows ! j)) (row_key gh (rows ! k))))"

definition tall_alloc :: CRowAtlasAlloc where
  \<comment> \<open>64 x 32768 at its maximum, with one row of height 32000 that has 52 pixels left\<close>
  "tall_alloc =
     (mk_alloc 64 32768 64 32768 [])
       \<lparr>nextRowPos := 32000, imageRows := [\<lparr>position = 0, height = 32000, width = 12\<rparr>]\<rparr>"

definition tie_alloc :: CRowAtlasAlloc where
  \<comment> \<open>two rows of the same height, the second one less used than the first\<close>
  "tie_alloc =
     (mk_alloc 64 64 256 256 [])
       \<lparr>nextRowPos := 44,
         imageRows := [\<lparr>position = 0, height = 22, width = 52\<rparr>,
                       \<lparr>position = 22, height = 22, width = 10\<rparr>]\<rparr>"

definition wide_alloc :: CRowAtlasAlloc where
  \<comment> \<open>64 x 64 at its maximum, one entry of 100 x 10\<close>
  "wide_alloc = mk_alloc 64 64 64 64 [mk_entry ''A'' 100 10]"




definition lopsided_alloc :: CRowAtlasAlloc where
  \<comment> \<open>64 x 64, at most 100 x 128, one entry of 64 x 64\<close>
  "lopsided_alloc = mk_alloc 64 64 100 128 [mk_entry ''A'' 64 64]"

definition wide_result :: CRowAtlasAlloc where
  \<comment> \<open>what \<open>Allocate\<close> makes of \<open>wide_alloc\<close>\<close>
  "wide_result =
     \<lparr>entries = [(''A'', \<lparr>size_x = 100, size_y = 10, name = ''A'',
                          texCoords = \<lparr>x1 = 0, y1 = 0, x2 = 100, y2 = 10\<rparr>\<rparr>)],
      atlasSize_x = 64, atlasSize_y = 12, maxsize_x = 64, maxsize_y = 64,
      numLevels = 1, minDim = 10, nextRowPos = 12,
      imageRows = [\<lparr>position = 0, height = 12, width = 102\<rparr>]\<rparr>"

definition rows_sum :: "CRowAtlasAlloc \<Rightarrow> bool" where
  \<comment> \<open>the next free row position is the sum of the heights of the rows\<close>
  "rows_sum s \<longleftrightarrow> nextRowPos s = (\<Sum>row\<leftarrow>imageRows s. height row)"

definition scenario_result :: CRowAtlasAlloc where
  \<comment> \<open>what \<open>Allocate\<close> makes of \<open>scenario\<close>\<close>
  "scenario_result =
     \<lparr>entries =
        [(''C'', \<lparr>size_x = 60, size_y = 10, name = ''C'',
                  texCoords = \<lparr>x1 = 0, y1 = 44, x2 = 60, y2 = 54\<rparr>\<rparr>),
         (''A'', \<lparr>size_x = 50, size_y = 20, name = ''A'',
                  texCoords = \<lparr>x1 = 0, y1 = 0, x2 = 50, y2 = 20\<rparr>\<rparr>),
         (''B'', \<lparr>size_x = 40, size_y = 20, name = ''B'',
                  texCoords = \<lparr>x1 = 0, y1 = 22, x2 = 40, y2 = 42\<rparr>\<rparr>)],
      atlasSize_x = 64, atlasSize_y = 56, maxsize_x = 256, maxsize_y = 256,
      numLevels = 1, minDim = 10, nextRowPos = 56,
      imageRows =
        [\<lparr>position = 0, height = 22, width = 52\<rparr>,
         \<lparr>position = 22, height = 22, width = 42\<rparr>,
         \<lparr>position = 44, height = 12, width = 62\<rparr>]\<rparr>"

definition same_layout :: "bool \<times> CRowAtlasAlloc \<Rightarrow> bool \<times> CRowAtlasAlloc \<Rightarrow> bool" where
  \<comment> \<open>two results of \<open>Allocate\<close> with the same success flag, the same entries with the
      same rectangles, and the same surface and rows: they differ at most in the
      iteration order of the registry\<close>
  "same_layout a b \<longleftrightarrow>
     fst a = fst b \<and> mset (entries (snd a)) = mset (entries (snd b)) \<and>
     snd b = (snd a)\<lparr>entries := entries (snd b)\<rparr>"

definition scenario_sorted :: "(string \<times> SAtlasEntry) list" where
  \<comment> \<open>the entries of \<open>scenario\<close>, met in another order\<close>
  "scenario_sorted = [mk_entry ''A'' 50 20, mk_entry ''B'' 40 20, mk_entry ''C'' 60 10]"

definition find_for :: "string \<times> SAtlasEntry \<Rightarrow> int \<Rightarrow> CRowAtlasAlloc \<Rightarrow> (nat option \<times> CRowAtlasAlloc) option" where
  \<comment> \<open>the call of \<open>FindRow\<close> that the placement loop makes for an entry\<close>
  "find_for tex padding s = FindRow s (size_x (snd tex) + padding) (size_y (snd tex) + padding)"






section \<open>Evaluation\<close>

lemma bit_width_nonpos: "n \<le> 0 \<Longrightarrow> bit_width n = 0"
  by (simp add: bit_width.simps)

lemma bit_width_pos: "0 < n \<Longrightarrow> bit_width n = Suc (bit_width (n div 2))"
  by (subst bit_width.simps) simp

lemmas float_eval =
  slack_missing_def fmul_1_2f_def fdiv_def float_of_int_def float32_quot_def float32_pos_def
  round_half_even_def pow2_def bit_width_nonpos bit_width_pos Let_def

lemmas alloc_eval =
  Allocate_def EstimateNeededSize_def EstimateLoop.simps EstimateResize_def
  spaceNeeded_of_def spaceFree_of_def AddRow_def new_Row_def AddRow_grow.simps ResizeTexture_def
  FindRow_def GetNumTexLevels_def memtextures_of_def stable_sort_def set_texCoords_def
  place_one_def CompareTex_def bit_ceil_def mk_alloc_def mk_entry_def

section \<open>The processing order\<close>






lemma set_insert_sorted [simp]: "set (insert_sorted cmp a bs) = insert a (set bs)"
  by (induction bs) auto

lemma mset_insert_sorted [simp]: "mset (insert_sorted cmp a bs) = add_mset a (mset bs)"
  by (induction bs) auto

lemma mset_stable_sort [simp]: "mset (stable_sort cmp xs) = mset xs"
  by (induction xs) (auto simp: stable_sort_def)








section \<open>Termination of the estimator\<close>

lemma EstimateLoop_not_stuck:
  assumes "EstimateLoop needed p = Some r"
  shows "\<not> stuck needed p"
proof (rule EstimateLoop.raw_induct [where P = "\<lambda>n q r. \<not> stuck n q", OF _ assms])
  fix f n q r
  assume IH: "\<And>n q r. f n q = Some r \<Longrightarrow> \<not> stuck n q"
    and body: "(if slack_missing (fst q) n
      then if maxsize_x (snd q) \<le> atlasSize_x (snd q) \<and> maxsize_y (snd q) \<le> atlasSize_y (snd q)
           then Some q else f n (EstimateResize q)
      else Some q) = Some r"
  show "\<not> stuck n q"
  proof
    assume st: "stuck n q"
    then have "f n q = Some r"
      using body by (auto simp: stuck_def at_max_def split: if_splits)
    then show False using IH st by blast
  qed
qed

lemma EstimateLoop_stuck: "stuck needed p \<Longrightarrow> EstimateLoop needed p = None"
  using EstimateLoop_not_stuck by (cases "EstimateLoop needed p") auto

text \<open>
  C5 (fails).  With a surface of 64 x 64, a maximum of 100 x 100 and one registered entry
  of 64 x 64, the estimator wants more space (4096 free against 4096 needed), neither axis
  is at its maximum, and neither axis can be doubled without exceeding the maximum: the
  loop repeats in the same state for ever, so neither \<open>EstimateNeededSize\<close> nor
  \<open>Allocate\<close> returns.
\<close>

theorem estimator_diverges:
  "stuck (spaceNeeded_of stuck_alloc) (spaceFree_of stuck_alloc, stuck_alloc) \<and>
   EstimateNeededSize stuck_alloc = None \<and> Allocate stuck_alloc = None"
proof -
  have b: "spaceNeeded_of stuck_alloc = 4096" "spaceFree_of stuck_alloc = 4096"
    by (simp_all add: stuck_alloc_def mk_alloc_def mk_entry_def spaceNeeded_of_def
        spaceFree_of_def)
  have a: "stuck 4096 (4096, stuck_alloc)"
    by (simp add: stuck_def at_max_def stuck_alloc_def mk_alloc_def mk_entry_def
        EstimateResize_def float_eval)
  have c: "stuck_alloc\<lparr>atlasSize_y := bit_ceil (atlasSize_y stuck_alloc mod 2 ^ 32)\<rparr> = stuck_alloc"
    by (simp add: stuck_alloc_def mk_alloc_def bit_ceil_def bit_width_pos bit_width_nonpos)
  have d: "EstimateNeededSize stuck_alloc = None"
    using EstimateLoop_stuck [OF a] by (simp add: EstimateNeededSize_def b)
  then have "Allocate stuck_alloc = None"
    using c by (simp add: Allocate_def)
  with a b d show ?thesis by simp
qed

section \<open>New rows\<close>

lemma ResizeTexture_simps [simp]:
  "atlasSize_x (ResizeTexture s) = min (maxsize_x s) (2 * atlasSize_x s)"
  "atlasSize_y (ResizeTexture s) = min (maxsize_y s) (2 * atlasSize_y s)"
  "maxsize_x (ResizeTexture s) = maxsize_x s"
  "maxsize_y (ResizeTexture s) = maxsize_y s"
  "nextRowPos (ResizeTexture s) = nextRowPos s"
  "imageRows (ResizeTexture s) = imageRows s"
  "entries (ResizeTexture s) = entries s"
  "numLevels (ResizeTexture s) = numLevels s"
  "minDim (ResizeTexture s) = minDim s"
  by (simp_all add: ResizeTexture_def)

lemma funpow_ResizeTexture_simps [simp]:
  "maxsize_x ((ResizeTexture ^^ k) s) = maxsize_x s"
  "maxsize_y ((ResizeTexture ^^ k) s) = maxsize_y s"
  "nextRowPos ((ResizeTexture ^^ k) s) = nextRowPos s"
  "imageRows ((ResizeTexture ^^ k) s) = imageRows s"
  "entries ((ResizeTexture ^^ k) s) = entries s"
  "numLevels ((ResizeTexture ^^ k) s) = numLevels s"
  "minDim ((ResizeTexture ^^ k) s) = minDim s"
  by (induction k) simp_all


lemma AddRow_grow_trace:
  assumes "AddRow_grow h s = Some r"
  shows "\<exists>k. (\<forall>j<k. atlasSize_y ((ResizeTexture ^^ j) s) < nextRowPos s + h \<and>
                     \<not> at_max ((ResizeTexture ^^ j) s)) \<and>
             (let t = (ResizeTexture ^^ k) s
              in if atlasSize_y t < nextRowPos s + h then at_max t \<and> r = (False, t)
                 else r = (True, t))"
proof (rule AddRow_grow.raw_induct [where P = "\<lambda>h s r. \<exists>k. (\<forall>j<k. atlasSize_y ((ResizeTexture ^^ j) s) < nextRowPos s + h \<and>
                     \<not> at_max ((ResizeTexture ^^ j) s)) \<and>
             (let t = (ResizeTexture ^^ k) s
              in if atlasSize_y t < nextRowPos s + h then at_max t \<and> r = (False, t)
                 else r = (True, t))", OF _ assms])
  fix f h s r
  assume IH: "\<And>h s r. f h s = Some r \<Longrightarrow> \<exists>k. (\<forall>j<k. atlasSize_y ((ResizeTexture ^^ j) s) < nextRowPos s + h \<and>
                     \<not> at_max ((ResizeTexture ^^ j) s)) \<and>
             (let t = (ResizeTexture ^^ k) s
              in if atlasSize_y t < nextRowPos s + h then at_max t \<and> r = (False, t)
                 else r = (True, t))"
    and body: "(if atlasSize_y s < nextRowPos s + h
      then if maxsize_x s \<le> atlasSize_x s \<and> maxsize_y s \<le> atlasSize_y s then Some (False, s)
           else f h (ResizeTexture s)
      else Some (True, s)) = Some r"
  let ?Q = "\<lambda>k s. (\<forall>j<k. atlasSize_y ((ResizeTexture ^^ j) s) < nextRowPos s + h \<and>
                     \<not> at_max ((ResizeTexture ^^ j) s)) \<and>
             (let t = (ResizeTexture ^^ k) s
              in if atlasSize_y t < nextRowPos s + h then at_max t \<and> r = (False, t)
                 else r = (True, t))"
  consider (stop) "\<not> atlasSize_y s < nextRowPos s + h"
    | (fail) "atlasSize_y s < nextRowPos s + h" "at_max s"
    | (grow) "atlasSize_y s < nextRowPos s + h" "\<not> at_max s"
    by blast
  then show "\<exists>k. ?Q k s"
  proof cases
    case stop
    then have "?Q 0 s" using body by simp
    then show ?thesis ..
  next
    case fail
    then have "?Q 0 s" using body by (simp add: at_max_def)
    then show ?thesis ..
  next
    case grow
    then have "f h (ResizeTexture s) = Some r"
      using body by (auto simp: at_max_def split: if_splits)
    from IH [OF this] obtain k where k: "?Q k (ResizeTexture s)" ..
    have "?Q (Suc k) s"
    proof (intro conjI allI impI)
      fix j assume "j < Suc k"
      then show "atlasSize_y ((ResizeTexture ^^ j) s) < nextRowPos s + h"
        using k grow by (cases j) (auto simp: funpow_swap1)
      show "\<not> at_max ((ResizeTexture ^^ j) s)"
        using k grow \<open>j < Suc k\<close> by (cases j) (auto simp: funpow_swap1)
    next
      show "let t = (ResizeTexture ^^ Suc k) s
              in if atlasSize_y t < nextRowPos s + h then at_max t \<and> r = (False, t)
                 else r = (True, t)"
        using k by (simp add: funpow_swap1)
    qed
    then show ?thesis ..
  qed
qed









lemma AddRow_trace:
  assumes "AddRow s glyphWidth h = Some (r, s')"
  shows "\<exists>k. (\<forall>j<k. atlasSize_y ((ResizeTexture ^^ j) s) < nextRowPos s + h \<and>
                    \<not> at_max ((ResizeTexture ^^ j) s)) \<and>
     (let t = (ResizeTexture ^^ k) s
      in if atlasSize_y t < nextRowPos s + h then at_max t \<and> r = None \<and> s' = t
         else r = Some (length (imageRows s)) \<and>
              s' = t\<lparr>imageRows := imageRows s @
                       [\<lparr>position = nextRowPos s, height = h, width = 0\<rparr>],
                     nextRowPos := nextRowPos s + h\<rparr>)"
proof -
  from assms obtain ok s1 where g: "AddRow_grow h s = Some (ok, s1)"
    by (auto simp: AddRow_def new_Row_def split: option.splits)
  from AddRow_grow_trace [OF g] obtain k where
    tr: "\<forall>j<k. atlasSize_y ((ResizeTexture ^^ j) s) < nextRowPos s + h \<and>
                 \<not> at_max ((ResizeTexture ^^ j) s)"
    and fin: "let t = (ResizeTexture ^^ k) s
     in if atlasSize_y t < nextRowPos s + h then at_max t \<and> (ok, s1) = (False, t)
        else (ok, s1) = (True, t)"
    by blast
  show ?thesis
  proof (intro exI [of _ k] conjI)
    show "\<forall>j<k. atlasSize_y ((ResizeTexture ^^ j) s) < nextRowPos s + h \<and>
                 \<not> at_max ((ResizeTexture ^^ j) s)"
      by (rule tr)
    show "let t = (ResizeTexture ^^ k) s
      in if atlasSize_y t < nextRowPos s + h then at_max t \<and> r = None \<and> s' = t
         else r = Some (length (imageRows s)) \<and>
              s' = t\<lparr>imageRows := imageRows s @
                       [\<lparr>position = nextRowPos s, height = h, width = 0\<rparr>],
                     nextRowPos := nextRowPos s + h\<rparr>"
      using fin assms g by (auto simp: AddRow_def new_Row_def Let_def split: if_splits)
  qed
qed





section \<open>The best-fit search\<close>

lemma beats_irrefl: "\<not> beats a a"
  by (cases "fst a") (auto simp: beats_def)

lemma beats_trans: "beats a b \<Longrightarrow> beats b c \<Longrightarrow> beats a c"
  by (cases "fst a"; cases "fst b"; cases "fst c") (auto simp: beats_def)

lemma beats_asym: "beats a b \<Longrightarrow> \<not> beats b a"
  by (cases "fst a"; cases "fst b") (auto simp: beats_def)

lemma beats_total:
  "fst a = Finite x \<Longrightarrow> fst b = Finite y \<Longrightarrow> a \<noteq> b \<Longrightarrow> beats a b \<or> beats b a"
  by (auto simp: beats_def prod_eq_iff)

lemma bit_width_lower: "0 < a \<Longrightarrow> 2 ^ (bit_width a - 1) \<le> a"
proof (induction a rule: bit_width.induct)
  case (1 n)
  show ?case
  proof (cases "n div 2 \<le> 0")
    case True
    then have "bit_width (n div 2) = 0" by (rule bit_width_nonpos)
    then show ?thesis using "1.prems" by (simp add: bit_width_pos)
  next
    case False
    then have pos: "0 < n div 2" by simp
    with "1.IH" "1.prems" have "2 ^ (bit_width (n div 2) - 1) \<le> n div 2" by simp
    moreover have "0 < bit_width (n div 2)" using pos by (simp add: bit_width_pos)
    ultimately have "2 ^ bit_width (n div 2) \<le> 2 * (n div 2)"
      by (cases "bit_width (n div 2)") simp_all
    also have "\<dots> \<le> n" by simp
    finally show ?thesis using "1.prems" by (simp add: bit_width_pos)
  qed
qed

lemma round_half_even_lower: "0 < d \<Longrightarrow> n div d \<le> round_half_even n d"
  by (simp add: round_half_even_def Let_def)

lemma float_of_int_eq_0_iff: "float_of_int i = 0 \<longleftrightarrow> i = 0"
proof
  assume "i = 0"
  then show "float_of_int i = 0" by (simp add: float_of_int_def bit_width_nonpos)
next
  assume z: "float_of_int i = 0"
  show "i = 0"
  proof (rule ccontr)
    assume nz: "i \<noteq> 0"
    let ?sh = "int (bit_width \<bar>i\<bar>) - 24"
    have big: "\<not> ?sh \<le> 0"
      using z nz by (auto simp: float_of_int_def Let_def)
    then have "nat ?sh \<le> bit_width \<bar>i\<bar> - 1" by simp
    then have "(2::int) ^ nat ?sh \<le> 2 ^ (bit_width \<bar>i\<bar> - 1)"
      by (intro power_increasing) simp_all
    also have "\<dots> \<le> \<bar>i\<bar>" using nz by (intro bit_width_lower) simp
    finally have "0 < \<bar>i\<bar> div 2 ^ nat ?sh"
      using pos_imp_zdiv_pos_iff [of "2 ^ nat ?sh" "\<bar>i\<bar>"] by simp
    then have "0 < round_half_even \<bar>i\<bar> (2 ^ nat ?sh)"
      using round_half_even_lower [of "2 ^ nat ?sh" "\<bar>i\<bar>"] by simp
    then show False using z nz big by (auto simp: float_of_int_def Let_def sgn_if split: if_splits)
  qed
qed

lemma float_of_int_nonneg: "0 \<le> i \<Longrightarrow> 0 \<le> float_of_int i"
proof -
  assume i: "0 \<le> i"
  have "0 \<le> round_half_even \<bar>i\<bar> (2 ^ nat k)" for k
    using round_half_even_lower [of "2 ^ nat k" "\<bar>i\<bar>"] pos_imp_zdiv_nonneg_iff [of "2 ^ nat k" "\<bar>i\<bar>"]
    by simp
  then show ?thesis using i by (simp add: float_of_int_def Let_def sgn_if)
qed

lemma row_key_finite:
  "float_of_int gh \<noteq> 0 \<Longrightarrow> \<exists>q. fst (row_key gh row) = Finite q"
  by (simp add: row_key_def row_ratio_def fdiv_def float32_quot_def)

lemma zero_height_beats_nothing:
  assumes "float_of_int gh = 0" "eligible ax gw gh row"
  shows "\<not> beats (row_key gh row) (Finite q, w)"
proof -
  from assms(1) have "gh = 0" by (simp add: float_of_int_eq_0_iff)
  with assms(2) have "0 \<le> height row" by (simp add: eligible_def)
  then have "0 \<le> float_of_int (height row)" by (rule float_of_int_nonneg)
  then have "row_ratio gh row = PInf \<or> row_ratio gh row = NaN"
    using assms(1) by (auto simp: row_ratio_def fdiv_def float32_quot_def)
  then show ?thesis by (auto simp: beats_def row_key_def)
qed

lemma chosen_Cons_new_first:
  assumes "eligible ax gw gh r" "beats (row_key gh r) init"
    and "\<forall>row\<in>set rows. \<not> (eligible ax gw gh row \<and> beats (row_key gh row) (row_key gh r))"
  shows "chosen ax gw gh (r # rows) init 0"
  using assms by (auto simp: chosen_def All_less_Suc2 beats_irrefl)

lemma chosen_Cons_new_later:
  assumes "eligible ax gw gh r" "beats (row_key gh r) init"
    and "chosen ax gw gh rows (row_key gh r) j"
  shows "chosen ax gw gh (r # rows) init (Suc j)"
  using assms by (auto simp: chosen_def All_less_Suc2 dest: beats_trans beats_asym)

lemma chosen_Cons_skip:
  assumes "\<not> (eligible ax gw gh r \<and> beats (row_key gh r) init)"
    and "chosen ax gw gh rows init j"
    and fin: "float_of_int gh \<noteq> 0"
  shows "chosen ax gw gh (r # rows) init (Suc j)"
proof -
  from row_key_finite [OF fin] obtain x y where
    xy: "fst (row_key gh (rows ! j)) = Finite x" "fst (row_key gh r) = Finite y"
    by blast
  have "\<not> beats (row_key gh r) (row_key gh (rows ! j))" if "eligible ax gw gh r"
    using that assms(1,2) by (auto simp: chosen_def dest: beats_trans)
  moreover have "beats (row_key gh (rows ! j)) (row_key gh r)" if "eligible ax gw gh r"
    using that assms(1,2) beats_total [OF xy]
    unfolding chosen_def by (metis beats_trans)
  ultimately show ?thesis using assms(2)
    by (auto simp: chosen_def All_less_Suc2)
qed

lemma chosen_unique: "chosen ax gw gh rows init j \<Longrightarrow> chosen ax gw gh rows init j' \<Longrightarrow> j = j'"
  by (metis chosen_def beats_asym linorder_neqE_nat)

lemma FindRow_loop_none:
  assumes "\<forall>row\<in>set rows. \<not> (eligible ax gw gh row \<and> beats (row_key gh row) (br, bw))"
  shows "FindRow_loop ax gw gh rows i (bw, br, b) = (bw, br, b)"
  using assms
proof (induction rows arbitrary: i)
  case Nil
  then show ?case by simp
next
  case (Cons r rows)
  have "FindRow_loop ax gw gh (r # rows) i (bw, br, b) =
      FindRow_loop ax gw gh rows (Suc i) (bw, br, b)"
    using Cons.prems by (auto simp: eligible_def beats_def row_key_def row_ratio_def Let_def)
  then show ?case using Cons by simp
qed

lemma FindRow_loop_chosen:
  assumes fin: "float_of_int gh \<noteq> 0"
  shows
  "if \<exists>row\<in>set rows. eligible ax gw gh row \<and> beats (row_key gh row) (br, bw)
   then \<exists>j. chosen ax gw gh rows (br, bw) j \<and>
          FindRow_loop ax gw gh rows i (bw, br, b) =
            (width (rows ! j), fst (row_key gh (rows ! j)), Some (i + j))
   else FindRow_loop ax gw gh rows i (bw, br, b) = (bw, br, b)"
proof (induction rows arbitrary: i bw br b)
  case Nil
  then show ?case by simp
next
  case (Cons r rows)
  let ?cand = "eligible ax gw gh r \<and> beats (row_key gh r) (br, bw)"
  have step: "FindRow_loop ax gw gh (r # rows) i (bw, br, b) =
      (if ?cand then FindRow_loop ax gw gh rows (Suc i) (width r, fst (row_key gh r), Some i)
       else FindRow_loop ax gw gh rows (Suc i) (bw, br, b))"
    by (auto simp: eligible_def beats_def row_key_def row_ratio_def Let_def)
  have key: "(fst (row_key gh r), width r) = row_key gh r"
    by (simp add: row_key_def)
  show ?case
  proof (cases ?cand)
    case True
    note c = this
    show ?thesis
    proof (cases "\<exists>row\<in>set rows. eligible ax gw gh row \<and> beats (row_key gh row) (row_key gh r)")
      case True
      with Cons.IH [of "fst (row_key gh r)" "width r" "Suc i" "Some i"] obtain j where
        j: "chosen ax gw gh rows (row_key gh r) j"
          "FindRow_loop ax gw gh rows (Suc i) (width r, fst (row_key gh r), Some i) =
            (width (rows ! j), fst (row_key gh (rows ! j)), Some (Suc i + j))"
        by (auto simp: key)
      have "chosen ax gw gh (r # rows) (br, bw) (Suc j)"
        using c j(1) chosen_Cons_new_later by blast
      then show ?thesis using step c j(2) by (auto simp del: FindRow_loop.simps)
    next
      case False
      with Cons.IH [of "fst (row_key gh r)" "width r" "Suc i" "Some i"]
      have "FindRow_loop ax gw gh rows (Suc i) (width r, fst (row_key gh r), Some i) =
          (width r, fst (row_key gh r), Some i)"
        by (simp add: key)
      moreover have "chosen ax gw gh (r # rows) (br, bw) 0"
        using c False chosen_Cons_new_first by blast
      ultimately show ?thesis using step c by (auto simp del: FindRow_loop.simps intro!: exI [of _ 0])
    qed
  next
    case False
    note nc = this
    show ?thesis
    proof (cases "\<exists>row\<in>set rows. eligible ax gw gh row \<and> beats (row_key gh row) (br, bw)")
      case True
      with Cons.IH [of br bw "Suc i" b] obtain j where
        j: "chosen ax gw gh rows (br, bw) j"
          "FindRow_loop ax gw gh rows (Suc i) (bw, br, b) =
              (width (rows ! j), fst (row_key gh (rows ! j)), Some (Suc i + j))"
        by auto
      have "chosen ax gw gh (r # rows) (br, bw) (Suc j)"
        using nc j(1) fin chosen_Cons_skip by blast
      then show ?thesis using step nc j(2) True by (auto simp del: FindRow_loop.simps)
    next
      case False
      with Cons.IH [of br bw "Suc i" b]
      have "FindRow_loop ax gw gh rows (Suc i) (bw, br, b) = (bw, br, b)"
        by simp
      then have "FindRow_loop ax gw gh (r # rows) i (bw, br, b) = (bw, br, b)"
        using step nc by (simp del: FindRow_loop.simps)
      moreover have "\<not> (\<exists>row\<in>set (r # rows). eligible ax gw gh row \<and> beats (row_key gh row) (br, bw))"
        using nc False by auto
      ultimately show ?thesis by (auto simp del: FindRow_loop.simps)
    qed
  qed
qed

lemma FindRow_existing:
  assumes "\<exists>row\<in>set (imageRows s). eligible (atlasSize_x s) gw gh row \<and>
             beats (row_key gh row) (Finite 10000, atlasSize_x s)"
  shows "\<exists>j. chosen (atlasSize_x s) gw gh (imageRows s) (Finite 10000, atlasSize_x s) j \<and>
             FindRow s gw gh = Some (Some j, s)"
proof -
  have fin: "float_of_int gh \<noteq> 0"
    using assms zero_height_beats_nothing by blast
  from FindRow_loop_chosen [OF fin, of "imageRows s" "atlasSize_x s" gw "Finite 10000"
      "atlasSize_x s" 0 None] assms
  obtain j where "chosen (atlasSize_x s) gw gh (imageRows s) (Finite 10000, atlasSize_x s) j"
    "FindRow_loop (atlasSize_x s) gw gh (imageRows s) 0 (atlasSize_x s, Finite 10000, None) =
       (width (imageRows s ! j), fst (row_key gh (imageRows s ! j)), Some (0 + j))"
    by auto
  then show ?thesis by (auto simp: FindRow_def)
qed

lemma FindRow_new:
  assumes "\<not> (\<exists>row\<in>set (imageRows s). eligible (atlasSize_x s) gw gh row \<and>
             beats (row_key gh row) (Finite 10000, atlasSize_x s))"
  shows "FindRow s gw gh = AddRow s gw gh"
proof -
  from assms have "FindRow_loop (atlasSize_x s) gw gh (imageRows s) 0
      (atlasSize_x s, Finite 10000, None) = (atlasSize_x s, Finite 10000, None)"
    by (intro FindRow_loop_none) blast
  then show ?thesis by (simp add: FindRow_def)
qed

lemma FindRow_zero_height: "FindRow s gw 0 = AddRow s gw 0"
proof (rule FindRow_new)
  have "float_of_int 0 = 0" by (simp add: float_of_int_eq_0_iff)
  then show "\<not> (\<exists>row\<in>set (imageRows s). eligible (atlasSize_x s) gw 0 row \<and>
             beats (row_key 0 row) (Finite 10000, atlasSize_x s))"
    using zero_height_beats_nothing by blast
qed

text \<open>
  C3 (amended).  The search starts from a best ratio of 10000 and a best width equal to
  the surface width.  It considers the existing rows that have the requested width left
  and are at least as high as requested, and among these only the rows that beat this
  initial best in the comparisons of \<open>float\<close>: ratio below 10000, or ratio 10000 and used
  width below the surface width.  If there is such a row, \<open>FindRow\<close> returns, without
  changing the allocator, the row with the smallest ratio, among rows of equal ratio the
  one with the smallest used width, and among rows equal in both the first one.  If
  there is none, it delegates to \<open>AddRow\<close>.  For a requested height of 0 the ratio of
  every such row is an infinity or a NaN, no row beats the initial best, and \<open>FindRow\<close>
  delegates to \<open>AddRow\<close>.
\<close>

theorem FindRow_best_fit:
  "(if \<exists>row\<in>set (imageRows s). eligible (atlasSize_x s) gw gh row \<and>
        beats (row_key gh row) (Finite 10000, atlasSize_x s)
    then \<exists>j<length (imageRows s).
          FindRow s gw gh = Some (Some j, s) \<and>
          eligible (atlasSize_x s) gw gh (imageRows s ! j) \<and>
          beats (row_key gh (imageRows s ! j)) (Finite 10000, atlasSize_x s) \<and>
          (\<forall>k<length (imageRows s). eligible (atlasSize_x s) gw gh (imageRows s ! k) \<longrightarrow>
             \<not> beats (row_key gh (imageRows s ! k)) (row_key gh (imageRows s ! j)) \<and>
             (k < j \<longrightarrow> beats (row_key gh (imageRows s ! j)) (row_key gh (imageRows s ! k))))
    else FindRow s gw gh = AddRow s gw gh) \<and>
   FindRow s gw 0 = AddRow s gw 0"
proof -
  have "if \<exists>row\<in>set (imageRows s). eligible (atlasSize_x s) gw gh row \<and>
        beats (row_key gh row) (Finite 10000, atlasSize_x s)
    then \<exists>j<length (imageRows s).
          FindRow s gw gh = Some (Some j, s) \<and>
          eligible (atlasSize_x s) gw gh (imageRows s ! j) \<and>
          beats (row_key gh (imageRows s ! j)) (Finite 10000, atlasSize_x s) \<and>
          (\<forall>k<length (imageRows s). eligible (atlasSize_x s) gw gh (imageRows s ! k) \<longrightarrow>
             \<not> beats (row_key gh (imageRows s ! k)) (row_key gh (imageRows s ! j)) \<and>
             (k < j \<longrightarrow> beats (row_key gh (imageRows s ! j)) (row_key gh (imageRows s ! k))))
    else FindRow s gw gh = AddRow s gw gh"
  proof (cases "\<exists>row\<in>set (imageRows s). eligible (atlasSize_x s) gw gh row \<and>
        beats (row_key gh row) (Finite 10000, atlasSize_x s)")
    case True
    from FindRow_existing [OF True] obtain j where
      "chosen (atlasSize_x s) gw gh (imageRows s) (Finite 10000, atlasSize_x s) j"
      "FindRow s gw gh = Some (Some j, s)" by blast
    then show ?thesis using True unfolding chosen_def by auto
  next
    case False
    then show ?thesis using FindRow_new [OF False] by auto
  qed
  then show ?thesis using FindRow_zero_height [of s gw] by (rule conjI)
qed

lemma tie_keys:
  "row_key 22 \<lparr>position = 0, height = 22, width = 52\<rparr> = (Finite 1, 52)"
  "row_key 22 \<lparr>position = 22, height = 22, width = 10\<rparr> = (Finite 1, 10)"
  by (simp_all add: row_key_def row_ratio_def float_eval)

theorem FindRow_best_fit_witness:
  "eligible (atlasSize_x tie_alloc) 10 22 (imageRows tie_alloc ! 0) \<and>
   eligible (atlasSize_x tie_alloc) 10 22 (imageRows tie_alloc ! 1) \<and>
   row_ratio 22 (imageRows tie_alloc ! 0) = row_ratio 22 (imageRows tie_alloc ! 1) \<and>
   width (imageRows tie_alloc ! 1) < width (imageRows tie_alloc ! 0) \<and>
   FindRow tie_alloc 10 22 = Some (Some 1, tie_alloc) \<and>
   eligible (atlasSize_x tie_alloc) 10 0 (imageRows tie_alloc ! 1) \<and>
   row_ratio 0 (imageRows tie_alloc ! 1) = PInf \<and>
   FindRow tie_alloc 10 0 =
     Some (Some 2, tie_alloc\<lparr>imageRows := imageRows tie_alloc @
                      [\<lparr>position = 44, height = 0, width = 0\<rparr>]\<rparr>)"
proof -
  have rows: "imageRows tie_alloc = [\<lparr>position = 0, height = 22, width = 52\<rparr>,
      \<lparr>position = 22, height = 22, width = 10\<rparr>]" and ax: "atlasSize_x tie_alloc = 64"
    by (simp_all add: tie_alloc_def mk_alloc_def)
  have el: "eligible 64 10 22 \<lparr>position = 0, height = 22, width = 52\<rparr>"
    "eligible 64 10 22 \<lparr>position = 22, height = 22, width = 10\<rparr>"
    by (simp_all add: eligible_def)
  have ex: "\<exists>row\<in>set (imageRows tie_alloc). eligible (atlasSize_x tie_alloc) 10 22 row \<and>
        beats (row_key 22 row) (Finite 10000, atlasSize_x tie_alloc)"
    by (simp add: rows ax el tie_keys beats_def)
  with FindRow_best_fit [of tie_alloc 10 22] obtain j where
    j: "j < length (imageRows tie_alloc)" "FindRow tie_alloc 10 22 = Some (Some j, tie_alloc)"
      "\<forall>k<length (imageRows tie_alloc). eligible (atlasSize_x tie_alloc) 10 22 (imageRows tie_alloc ! k) \<longrightarrow>
         \<not> beats (row_key 22 (imageRows tie_alloc ! k)) (row_key 22 (imageRows tie_alloc ! j))"
    by auto
  have "j \<noteq> 0"
  proof
    assume "j = 0"
    with j(3) [rule_format, of 1] show False
      by (simp add: rows ax el tie_keys beats_def)
  qed
  with j(1) have "j = 1" by (simp add: rows)
  moreover have "AddRow tie_alloc 10 0 =
      Some (Some 2, tie_alloc\<lparr>imageRows := imageRows tie_alloc @
                      [\<lparr>position = 44, height = 0, width = 0\<rparr>]\<rparr>)"
    by (simp add: tie_alloc_def mk_alloc_def AddRow_def new_Row_def AddRow_grow.simps)
  moreover have "FindRow tie_alloc 10 0 = AddRow tie_alloc 10 0"
    using FindRow_best_fit [of tie_alloc 10 22] by blast
  ultimately show ?thesis using j(2)
    by (simp add: rows ax el eligible_def row_ratio_def float_eval)
qed

text \<open>
  C3 as stated fails: in \<open>tall_alloc\<close> the only row has the requested width left and is
  high enough for a request of 3 x 3, but its ratio 32000 / 3 exceeds 10000, so the row is
  not returned and a new row is created.
\<close>

theorem FindRow_skips_dissimilar_row:
  "eligible (atlasSize_x tall_alloc) 3 3 (imageRows tall_alloc ! 0) \<and>
   length (imageRows tall_alloc) = 1 \<and>
   FindRow tall_alloc 3 3 =
     Some (Some 1, tall_alloc\<lparr>imageRows := imageRows tall_alloc @
                      [\<lparr>position = 32000, height = 3, width = 0\<rparr>], nextRowPos := 32003\<rparr>)"
  by (simp add: tall_alloc_def mk_alloc_def eligible_def FindRow_def AddRow_def new_Row_def AddRow_grow.simps float_eval)

section \<open>Requests that need a new row\<close>



lemma FindRow_cases:
  "FindRow s w h = AddRow s w h \<or> (\<exists>j<length (imageRows s). FindRow s w h = Some (Some j, s))"
proof (cases "\<exists>row\<in>set (imageRows s). eligible (atlasSize_x s) w h row \<and>
    beats (row_key h row) (Finite 10000, atlasSize_x s)")
  case True
  from FindRow_existing [OF True] show ?thesis
    by (auto simp: chosen_def)
next
  case False
  from FindRow_new [OF False] show ?thesis ..
qed




section \<open>The capacity estimator\<close>

lemma foldl_add_sum_list: "foldl (\<lambda>acc x. acc + f x) a xs = (a::int) + sum_list (map f xs)"
  by (induction xs arbitrary: a) simp_all

lemma spaceNeeded_of_sum:
  "spaceNeeded_of s = (\<Sum>t\<leftarrow>entries s. size_x (snd t) * size_y (snd t))"
  by (simp add: spaceNeeded_of_def foldl_add_sum_list)

lemma spaceFree_of_sum:
  "spaceFree_of s = atlasSize_x s * (atlasSize_y s - nextRowPos s) +
     (\<Sum>row\<leftarrow>imageRows s. height row * (atlasSize_x s - width row))"
  by (simp add: spaceFree_of_def foldl_add_sum_list)

lemma EstimateResize_eq:
  "EstimateResize (free, t) =
     (let x = atlasSize_x t; y = atlasSize_y t;
          x' = (if 2 * x \<le> maxsize_x t then 2 * x else x);
          y' = (if 2 * y \<le> maxsize_y t then 2 * y else y)
      in (free + (x' * y' - x * y), t\<lparr>atlasSize_x := x', atlasSize_y := y'\<rparr>))"
  by (simp add: EstimateResize_def Let_def min_def algebra_simps)

lemma EstimateLoop_trace:
  assumes "EstimateLoop n p = Some r"
  shows "\<exists>k. (EstimateResize ^^ k) p = r \<and>
           (\<forall>j<k. slack_missing (fst ((EstimateResize ^^ j) p)) n \<and>
                   \<not> at_max (snd ((EstimateResize ^^ j) p))) \<and>
           (\<not> slack_missing (fst r) n \<or> at_max (snd r))"
proof (rule EstimateLoop.raw_induct [where P = "\<lambda>n p r. \<exists>k. (EstimateResize ^^ k) p = r \<and>
           (\<forall>j<k. slack_missing (fst ((EstimateResize ^^ j) p)) n \<and>
                   \<not> at_max (snd ((EstimateResize ^^ j) p))) \<and>
           (\<not> slack_missing (fst r) n \<or> at_max (snd r))", OF _ assms])
  fix f n p r
  assume IH: "\<And>n p r. f n p = Some r \<Longrightarrow> \<exists>k. (EstimateResize ^^ k) p = r \<and>
           (\<forall>j<k. slack_missing (fst ((EstimateResize ^^ j) p)) n \<and>
                   \<not> at_max (snd ((EstimateResize ^^ j) p))) \<and>
           (\<not> slack_missing (fst r) n \<or> at_max (snd r))"
    and body: "(if slack_missing (fst p) n
      then if maxsize_x (snd p) \<le> atlasSize_x (snd p) \<and> maxsize_y (snd p) \<le> atlasSize_y (snd p)
           then Some p else f n (EstimateResize p)
      else Some p) = Some r"
  let ?Q = "\<lambda>k p. (EstimateResize ^^ k) p = r \<and>
           (\<forall>j<k. slack_missing (fst ((EstimateResize ^^ j) p)) n \<and>
                   \<not> at_max (snd ((EstimateResize ^^ j) p))) \<and>
           (\<not> slack_missing (fst r) n \<or> at_max (snd r))"
  show "\<exists>k. ?Q k p"
  proof (cases "slack_missing (fst p) n \<and> \<not> at_max (snd p)")
    case False
    then have "?Q 0 p" using body by (auto simp: at_max_def split: if_splits)
    then show ?thesis ..
  next
    case True
    then have "f n (EstimateResize p) = Some r"
      using body by (auto simp: at_max_def split: if_splits)
    from IH [OF this] obtain k where k: "?Q k (EstimateResize p)" ..
    have "?Q (Suc k) p"
    proof (intro conjI allI impI)
      show "(EstimateResize ^^ Suc k) p = r" using k by (simp add: funpow_swap1)
      show "\<not> slack_missing (fst r) n \<or> at_max (snd r)" using k by simp
    next
      fix j assume "j < Suc k"
      then show "slack_missing (fst ((EstimateResize ^^ j) p)) n"
        using k True by (cases j) (auto simp: funpow_swap1)
      show "\<not> at_max (snd ((EstimateResize ^^ j) p))"
        using k True \<open>j < Suc k\<close> by (cases j) (auto simp: funpow_swap1)
    qed
    then show ?thesis ..
  qed
qed

text \<open>
  What the estimator does.  It computes \<open>needed\<close> as the sum over the entries of width
  times height, and \<open>free\<close> as the surface width times (surface height minus
  \<open>nextRowPos\<close>) plus the sum over the rows of row height times (surface width minus
  used width).  One round of the loop doubles each axis whose doubled dimension does not
  exceed the maximum of that axis, and no other, and adds the newly exposed area to
  \<open>free\<close>.  When the estimator returns, it has made some number of rounds, before each of
  which the slack was missing and the surface was not at the maximum on both axes, and at
  the end the slack is satisfied or both axes are at their maximum.
\<close>

theorem estimator_contract:
  "spaceNeeded_of s = (\<Sum>t\<leftarrow>entries s. size_x (snd t) * size_y (snd t)) \<and>
   spaceFree_of s = atlasSize_x s * (atlasSize_y s - nextRowPos s) +
     (\<Sum>row\<leftarrow>imageRows s. height row * (atlasSize_x s - width row)) \<and>
   EstimateResize (free, t) =
     (let x = atlasSize_x t; y = atlasSize_y t;
          x' = (if 2 * x \<le> maxsize_x t then 2 * x else x);
          y' = (if 2 * y \<le> maxsize_y t then 2 * y else y)
      in (free + (x' * y' - x * y), t\<lparr>atlasSize_x := x', atlasSize_y := y'\<rparr>)) \<and>
   (EstimateNeededSize s = Some s' \<longrightarrow>
      (\<exists>k free'. (EstimateResize ^^ k) (spaceFree_of s, s) = (free', s') \<and>
         (\<forall>j<k. slack_missing (fst ((EstimateResize ^^ j) (spaceFree_of s, s))) (spaceNeeded_of s) \<and>
                 \<not> at_max (snd ((EstimateResize ^^ j) (spaceFree_of s, s)))) \<and>
         (\<not> slack_missing free' (spaceNeeded_of s) \<or> at_max s')))"
proof (intro conjI impI)
  assume "EstimateNeededSize s = Some s'"
  then obtain free' where "EstimateLoop (spaceNeeded_of s) (spaceFree_of s, s) = Some (free', s')"
    by (auto simp: EstimateNeededSize_def)
  from EstimateLoop_trace [OF this]
  show "\<exists>k free'. (EstimateResize ^^ k) (spaceFree_of s, s) = (free', s') \<and>
         (\<forall>j<k. slack_missing (fst ((EstimateResize ^^ j) (spaceFree_of s, s))) (spaceNeeded_of s) \<and>
                 \<not> at_max (snd ((EstimateResize ^^ j) (spaceFree_of s, s)))) \<and>
         (\<not> slack_missing free' (spaceNeeded_of s) \<or> at_max s')"
    by auto
qed (rule spaceNeeded_of_sum spaceFree_of_sum EstimateResize_eq)+

lemma lop_eval: "EstimateNeededSize lopsided_alloc = Some (lopsided_alloc\<lparr>atlasSize_y := 128\<rparr>)"
  by (simp add: lopsided_alloc_def mk_alloc_def mk_entry_def EstimateNeededSize_def EstimateLoop.simps
      EstimateResize_def spaceNeeded_of_def spaceFree_of_def float_eval)

text \<open>
  C6 (fails).  While the slack is missing and an axis is below its maximum, the estimator
  is to double that axis, clamped to the maximum.  With a surface of 64 x 64, a maximum
  of 100 x 128 and one entry of 64 x 64 (4096 pixels needed, 4096 free), the slack is
  missing and the width is below its maximum, but the estimator returns a surface of
  64 x 128: the width is left at 64, not doubled and clamped to 100.
\<close>

theorem estimator_does_not_clamp:
  "slack_missing (spaceFree_of lopsided_alloc) (spaceNeeded_of lopsided_alloc) \<and>
   atlasSize_x lopsided_alloc < maxsize_x lopsided_alloc \<and>
   EstimateNeededSize lopsided_alloc = Some (lopsided_alloc\<lparr>atlasSize_y := 128\<rparr>) \<and>
   atlasSize_x (lopsided_alloc\<lparr>atlasSize_y := 128\<rparr>) \<noteq>
     min (maxsize_x lopsided_alloc) (2 * atlasSize_x lopsided_alloc)"
  using lop_eval
  by (simp add: lopsided_alloc_def mk_alloc_def mk_entry_def spaceNeeded_of_def spaceFree_of_def float_eval)

theorem estimator_contract_witness:
  "EstimateNeededSize lopsided_alloc = Some (lopsided_alloc\<lparr>atlasSize_y := 128\<rparr>) \<and>
   (\<exists>k free'. (EstimateResize ^^ k) (spaceFree_of lopsided_alloc, lopsided_alloc) =
        (free', lopsided_alloc\<lparr>atlasSize_y := 128\<rparr>) \<and>
      (\<forall>j<k. slack_missing (fst ((EstimateResize ^^ j) (spaceFree_of lopsided_alloc, lopsided_alloc)))
                (spaceNeeded_of lopsided_alloc) \<and>
              \<not> at_max (snd ((EstimateResize ^^ j) (spaceFree_of lopsided_alloc, lopsided_alloc)))) \<and>
      (\<not> slack_missing free' (spaceNeeded_of lopsided_alloc) \<or>
       at_max (lopsided_alloc\<lparr>atlasSize_y := 128\<rparr>)))"
  using estimator_contract [of lopsided_alloc 0 lopsided_alloc "lopsided_alloc\<lparr>atlasSize_y := 128\<rparr>"]
    lop_eval by blast

section \<open>Entries wider than the surface\<close>

text \<open>
  C1 (fails).  With a surface of 64 x 64 that is already at its maximum and one
  registered entry of 100 x 10, \<open>Allocate\<close> reports success and records the rectangle
  from x = 0 to x = 100 for the entry, on a surface that is 64 wide.
\<close>

theorem over_wide_entry_placed:
  "Allocate wide_alloc = Some (True, wide_result) \<and>
   atlasSize_x wide_result = 64 \<and>
   map (\<lambda>t. x2 (texCoords (snd t))) (entries wide_result) = [100]"
  by (simp add: wide_alloc_def wide_result_def alloc_eval float_eval)

section \<open>The placement loop\<close>

lemma place_one_cases:
  assumes "place_one tex padding s = Some (r, s')"
  obtains (fail) "r = None" "FindRow s (size_x (snd tex) + padding) (size_y (snd tex) + padding) = Some (None, s')"
  | (ok) i s1 where "r = Some i"
      "FindRow s (size_x (snd tex) + padding) (size_y (snd tex) + padding) = Some (Some i, s1)"
      "s' = s1\<lparr>entries := set_texCoords (fst tex)
                \<lparr>x1 = width (imageRows s1 ! i), y1 = position (imageRows s1 ! i),
                 x2 = width (imageRows s1 ! i) + size_x (snd tex),
                 y2 = position (imageRows s1 ! i) + size_y (snd tex)\<rparr> (entries s1),
              imageRows := (imageRows s1)[i := (imageRows s1 ! i)
                \<lparr>width := width (imageRows s1 ! i) + (size_x (snd tex) + padding)\<rparr>]\<rparr>"
  using assms
  by (auto simp: place_one_def Let_def split: option.splits prod.splits)

lemma place_invariant:
  assumes "place ms padding success s = Some (ok, s')" "I s"
    and step: "\<And>tex s r s1. tex \<in> set ms \<Longrightarrow> I s \<Longrightarrow> place_one tex padding s = Some (r, s1) \<Longrightarrow> I s1"
  shows "I s'"
  using assms
proof (induction ms arbitrary: success s)
  case Nil
  then show ?case by simp
next
  case (Cons tex ms)
  from Cons.prems(1) obtain r s1 where p1: "place_one tex padding s = Some (r, s1)"
    and rest: "place ms padding (if r = None then False else success) s1 = Some (ok, s')"
    by (auto split: option.splits prod.splits)
  have "I s1" using Cons.prems(2,3) p1 by (meson list.set_intros(1))
  with rest Cons.IH Cons.prems(3) show ?case by (meson list.set_intros(2))
qed

lemma AddRow_rows_sum:
  assumes "AddRow s w h = Some (r, s')" "rows_sum s"
  shows "rows_sum s'"
proof -
  from AddRow_trace [OF assms(1)] obtain k where
    "let t = (ResizeTexture ^^ k) s
      in if atlasSize_y t < nextRowPos s + h then at_max t \<and> r = None \<and> s' = t
         else r = Some (length (imageRows s)) \<and>
              s' = t\<lparr>imageRows := imageRows s @
                       [\<lparr>position = nextRowPos s, height = h, width = 0\<rparr>],
                     nextRowPos := nextRowPos s + h\<rparr>"
    by blast
  then show ?thesis using assms(2)
    by (auto simp: Let_def rows_sum_def split: if_splits)
qed

lemma FindRow_rows_sum:
  assumes "FindRow s w h = Some (r, s')" "rows_sum s"
  shows "rows_sum s'"
  using FindRow_cases [of s w h] assms AddRow_rows_sum by (metis Pair_inject option.inject)

lemma AddRow_index:
  assumes "AddRow s w h = Some (Some i, s')"
  shows "i < length (imageRows s')"
proof -
  from AddRow_trace [OF assms] obtain k where
    "let t = (ResizeTexture ^^ k) s
      in if atlasSize_y t < nextRowPos s + h then at_max t \<and> Some i = None \<and> s' = t
         else Some i = Some (length (imageRows s)) \<and>
              s' = t\<lparr>imageRows := imageRows s @
                       [\<lparr>position = nextRowPos s, height = h, width = 0\<rparr>],
                     nextRowPos := nextRowPos s + h\<rparr>"
    by blast
  then show ?thesis by (auto simp: Let_def split: if_splits)
qed

lemma FindRow_index:
  assumes "FindRow s w h = Some (Some i, s')"
  shows "i < length (imageRows s')"
  using FindRow_cases [of s w h] assms AddRow_index by (metis Pair_inject option.inject)

lemma map_height_update:
  "i < length rows \<Longrightarrow> map height (rows[i := (rows ! i)\<lparr>width := w\<rparr>]) = map height rows"
  by (simp add: map_update list_update_same_conv)

lemma place_one_rows_sum:
  assumes "place_one tex padding s = Some (r, s')" "rows_sum s"
  shows "rows_sum s'"
  using assms(1)
proof (cases rule: place_one_cases)
  case fail
  then show ?thesis using FindRow_rows_sum assms(2) by blast
next
  case (ok i s1)
  then have "rows_sum s1" "i < length (imageRows s1)"
    using FindRow_rows_sum FindRow_index assms(2) by blast+
  then show ?thesis using ok(3) by (simp add: rows_sum_def map_height_update)
qed

lemma place_rows_sum:
  assumes "place ms padding success s = Some (ok, s')" "rows_sum s"
  shows "rows_sum s'"
  using assms(1,2) by (rule place_invariant) (rule place_one_rows_sum)

section \<open>A whole pass\<close>

lemma scenario_eval: "Allocate scenario = Some (True, scenario_result)"
  by (simp add: scenario_def scenario_result_def alloc_eval float_eval)

lemma EstimateResize_frame [simp]:
  "nextRowPos (snd (EstimateResize p)) = nextRowPos (snd p)"
  "imageRows (snd (EstimateResize p)) = imageRows (snd p)"
  "entries (snd (EstimateResize p)) = entries (snd p)"
  "maxsize_x (snd (EstimateResize p)) = maxsize_x (snd p)"
  "maxsize_y (snd (EstimateResize p)) = maxsize_y (snd p)"
  "numLevels (snd (EstimateResize p)) = numLevels (snd p)"
  "minDim (snd (EstimateResize p)) = minDim (snd p)"
  by (simp_all add: EstimateResize_def Let_def split: prod.splits)

lemma funpow_EstimateResize_frame [simp]:
  "nextRowPos (snd ((EstimateResize ^^ k) p)) = nextRowPos (snd p)"
  "imageRows (snd ((EstimateResize ^^ k) p)) = imageRows (snd p)"
  "entries (snd ((EstimateResize ^^ k) p)) = entries (snd p)"
  "maxsize_x (snd ((EstimateResize ^^ k) p)) = maxsize_x (snd p)"
  "maxsize_y (snd ((EstimateResize ^^ k) p)) = maxsize_y (snd p)"
  "numLevels (snd ((EstimateResize ^^ k) p)) = numLevels (snd p)"
  "minDim (snd ((EstimateResize ^^ k) p)) = minDim (snd p)"
  by (induction k) simp_all

lemma EstimateNeededSize_frame:
  assumes "EstimateNeededSize s = Some s'"
  shows "nextRowPos s' = nextRowPos s" "imageRows s' = imageRows s" "entries s' = entries s"
    "maxsize_x s' = maxsize_x s" "maxsize_y s' = maxsize_y s" "numLevels s' = numLevels s"
    "minDim s' = minDim s"
proof -
  from assms obtain free' where "EstimateLoop (spaceNeeded_of s) (spaceFree_of s, s) = Some (free', s')"
    by (auto simp: EstimateNeededSize_def)
  from EstimateLoop_trace [OF this] obtain k where
    k: "(EstimateResize ^^ k) (spaceFree_of s, s) = (free', s')" by blast
  have "s' = snd ((EstimateResize ^^ k) (spaceFree_of s, s))" by (simp add: k)
  then show "nextRowPos s' = nextRowPos s" "imageRows s' = imageRows s" "entries s' = entries s"
    "maxsize_x s' = maxsize_x s" "maxsize_y s' = maxsize_y s" "numLevels s' = numLevels s"
    "minDim s' = minDim s"
    by simp_all
qed

lemma Allocate_cases:
  assumes "Allocate s = Some (ok, s')"
  obtains s1 s2 where
    "EstimateNeededSize (s\<lparr>atlasSize_y := bit_ceil (atlasSize_y s mod 2 ^ 32)\<rparr>) = Some s1"
    "place (memtextures_of s1) (2 ^ nat (GetNumTexLevels s1)) True s1 = Some (ok, s2)"
    "s' = s2\<lparr>atlasSize_y := nextRowPos s2\<rparr>"
  using assms by (auto simp: Allocate_def Let_def split: option.splits prod.splits)

text \<open>
  C9.  When \<open>Allocate\<close> returns, the surface height equals \<open>nextRowPos\<close>.  The equation
  "\<open>nextRowPos\<close> is the sum of the heights of all rows" is kept by every operation that
  touches the rows: by \<open>AddRow\<close>, by \<open>FindRow\<close>, by the placement of one entry and by a
  whole call of \<open>Allocate\<close>; so it holds at every point once it holds for the allocator
  the first call starts from, and it holds for an allocator without rows whose
  \<open>nextRowPos\<close> is 0.
\<close>

theorem height_tightness:
  "(imageRows s = [] \<and> nextRowPos s = 0 \<longrightarrow> rows_sum s) \<and>
   (Allocate s = Some (ok, s') \<longrightarrow>
      atlasSize_y s' = nextRowPos s' \<and> (rows_sum s \<longrightarrow> rows_sum s')) \<and>
   (rows_sum s \<longrightarrow>
      (AddRow s w h = Some (r, s1) \<longrightarrow> rows_sum s1) \<and>
      (FindRow s w h = Some (r, s1) \<longrightarrow> rows_sum s1) \<and>
      (place_one tex padding s = Some (r, s1) \<longrightarrow> rows_sum s1))"
proof (intro conjI impI)
  assume "imageRows s = [] \<and> nextRowPos s = 0"
  then show "rows_sum s" by (simp add: rows_sum_def)
next
  assume a: "Allocate s = Some (ok, s')"
  then show "atlasSize_y s' = nextRowPos s'"
    by (rule Allocate_cases) simp
  assume rs: "rows_sum s"
  from a obtain t1 t2 where
    e: "EstimateNeededSize (s\<lparr>atlasSize_y := bit_ceil (atlasSize_y s mod 2 ^ 32)\<rparr>) = Some t1"
    and p: "place (memtextures_of t1) (2 ^ nat (GetNumTexLevels t1)) True t1 = Some (ok, t2)"
    and f: "s' = t2\<lparr>atlasSize_y := nextRowPos t2\<rparr>"
    by (rule Allocate_cases)
  have "rows_sum t1"
    using rs EstimateNeededSize_frame(1,2) [OF e] by (simp add: rows_sum_def)
  with p have "rows_sum t2" by (rule place_rows_sum)
  then show "rows_sum s'" by (simp add: f rows_sum_def)
qed (blast intro: AddRow_rows_sum FindRow_rows_sum place_one_rows_sum)+

theorem height_tightness_witness:
  "rows_sum scenario \<and> Allocate scenario = Some (True, scenario_result) \<and>
   atlasSize_y scenario_result = nextRowPos scenario_result \<and> rows_sum scenario_result \<and>
   nextRowPos scenario_result = 56"
proof -
  have r: "rows_sum scenario"
    by (simp add: rows_sum_def scenario_def mk_alloc_def)
  have "nextRowPos scenario_result = 56"
    by (simp add: scenario_result_def)
  with r scenario_eval height_tightness [of scenario True scenario_result] show ?thesis
    by blast
qed

section \<open>Independence of the registration order\<close>

lemma ResizeTexture_entries: "ResizeTexture (s\<lparr>entries := es\<rparr>) = (ResizeTexture s)\<lparr>entries := es\<rparr>"
  by (simp add: ResizeTexture_def)

lemma AddRow_grow_entries_Some:
  assumes "AddRow_grow h s = Some r"
  shows "\<forall>es. AddRow_grow h (s\<lparr>entries := es\<rparr>) = Some (fst r, (snd r)\<lparr>entries := es\<rparr>)"
proof (rule AddRow_grow.raw_induct [where P = "\<lambda>h s r. \<forall>es. AddRow_grow h (s\<lparr>entries := es\<rparr>) = Some (fst r, (snd r)\<lparr>entries := es\<rparr>)", OF _ assms])
  fix f h s r
  assume IH: "\<And>h s r. f h s = Some r \<Longrightarrow>
      \<forall>es. AddRow_grow h (s\<lparr>entries := es\<rparr>) = Some (fst r, (snd r)\<lparr>entries := es\<rparr>)"
    and body: "(if atlasSize_y s < nextRowPos s + h
      then if maxsize_x s \<le> atlasSize_x s \<and> maxsize_y s \<le> atlasSize_y s then Some (False, s)
           else f h (ResizeTexture s)
      else Some (True, s)) = Some r"
  show "\<forall>es. AddRow_grow h (s\<lparr>entries := es\<rparr>) = Some (fst r, (snd r)\<lparr>entries := es\<rparr>)"
  proof
    fix es
    show "AddRow_grow h (s\<lparr>entries := es\<rparr>) = Some (fst r, (snd r)\<lparr>entries := es\<rparr>)"
      using body IH
      by (subst AddRow_grow.simps) (auto simp: ResizeTexture_entries split: if_splits)
  qed
qed

lemma AddRow_grow_entries:
  "AddRow_grow h (s\<lparr>entries := es\<rparr>) =
     map_option (\<lambda>r. (fst r, (snd r)\<lparr>entries := es\<rparr>)) (AddRow_grow h s)"
proof (cases "AddRow_grow h s")
  case (Some r)
  then show ?thesis using AddRow_grow_entries_Some by simp
next
  case None
  have "AddRow_grow h (s\<lparr>entries := es\<rparr>) = None"
  proof (rule ccontr)
    assume "AddRow_grow h (s\<lparr>entries := es\<rparr>) \<noteq> None"
    then obtain r where "AddRow_grow h (s\<lparr>entries := es\<rparr>) = Some r" by auto
    from AddRow_grow_entries_Some [OF this, rule_format, of "entries s"] None
    show False by simp
  qed
  then show ?thesis using None by simp
qed

lemma AddRow_entries:
  "AddRow (s\<lparr>entries := es\<rparr>) w h =
     map_option (\<lambda>r. (fst r, (snd r)\<lparr>entries := es\<rparr>)) (AddRow s w h)"
  by (auto simp: AddRow_def new_Row_def AddRow_grow_entries split: option.splits bool.splits)

lemma FindRow_entries:
  "FindRow (s\<lparr>entries := es\<rparr>) w h =
     map_option (\<lambda>r. (fst r, (snd r)\<lparr>entries := es\<rparr>)) (FindRow s w h)"
  by (auto simp: FindRow_def AddRow_entries split: prod.splits option.splits)

lemma EstimateResize_entries:
  "EstimateResize (free, s\<lparr>entries := es\<rparr>) =
     (fst (EstimateResize (free, s)), (snd (EstimateResize (free, s)))\<lparr>entries := es\<rparr>)"
  by (simp add: EstimateResize_def Let_def)

lemma EstimateLoop_entries_Some:
  assumes "EstimateLoop n p = Some r"
  shows "\<forall>es. EstimateLoop n (apsnd (\<lambda>t. t\<lparr>entries := es\<rparr>) p) = Some (apsnd (\<lambda>t. t\<lparr>entries := es\<rparr>) r)"
proof (rule EstimateLoop.raw_induct [where P = "\<lambda>n p r. \<forall>es. EstimateLoop n (apsnd (\<lambda>t. t\<lparr>entries := es\<rparr>) p) = Some (apsnd (\<lambda>t. t\<lparr>entries := es\<rparr>) r)", OF _ assms])
  fix f n p r
  assume IH: "\<And>n p r. f n p = Some r \<Longrightarrow>
      \<forall>es. EstimateLoop n (apsnd (\<lambda>t. t\<lparr>entries := es\<rparr>) p) = Some (apsnd (\<lambda>t. t\<lparr>entries := es\<rparr>) r)"
    and body: "(if slack_missing (fst p) n
      then if maxsize_x (snd p) \<le> atlasSize_x (snd p) \<and> maxsize_y (snd p) \<le> atlasSize_y (snd p)
           then Some p else f n (EstimateResize p)
      else Some p) = Some r"
  show "\<forall>es. EstimateLoop n (apsnd (\<lambda>t. t\<lparr>entries := es\<rparr>) p) = Some (apsnd (\<lambda>t. t\<lparr>entries := es\<rparr>) r)"
  proof
    fix es
    have er: "EstimateResize (apsnd (\<lambda>t. t\<lparr>entries := es\<rparr>) p) =
        apsnd (\<lambda>t. t\<lparr>entries := es\<rparr>) (EstimateResize p)"
      using EstimateResize_entries [where free = "fst p" and s = "snd p" and es = es] by (cases p) (simp add: apsnd_def map_prod_def split: prod.splits)
    show "EstimateLoop n (apsnd (\<lambda>t. t\<lparr>entries := es\<rparr>) p) = Some (apsnd (\<lambda>t. t\<lparr>entries := es\<rparr>) r)"
      using body IH
      by (subst EstimateLoop.simps) (auto simp: er split: if_splits)
  qed
qed

lemma EstimateLoop_entries:
  "EstimateLoop n (free, s\<lparr>entries := es\<rparr>) =
     map_option (apsnd (\<lambda>t. t\<lparr>entries := es\<rparr>)) (EstimateLoop n (free, s))"
proof (cases "EstimateLoop n (free, s)")
  case (Some r)
  then show ?thesis using EstimateLoop_entries_Some [OF Some, rule_format, of es] by simp
next
  case None
  have "EstimateLoop n (free, s\<lparr>entries := es\<rparr>) = None"
  proof (rule ccontr)
    assume "EstimateLoop n (free, s\<lparr>entries := es\<rparr>) \<noteq> None"
    then obtain r where "EstimateLoop n (free, s\<lparr>entries := es\<rparr>) = Some r" by auto
    from EstimateLoop_entries_Some [OF this, rule_format, of "entries s"] None
    show False by simp
  qed
  then show ?thesis using None by simp
qed

lemma EstimateNeededSize_entries:
  assumes "spaceNeeded_of (s\<lparr>entries := es\<rparr>) = spaceNeeded_of s"
  shows "EstimateNeededSize (s\<lparr>entries := es\<rparr>) =
     map_option (\<lambda>t. t\<lparr>entries := es\<rparr>) (EstimateNeededSize s)"
proof -
  have "spaceFree_of (s\<lparr>entries := es\<rparr>) = spaceFree_of s"
    by (simp add: spaceFree_of_def)
  then show ?thesis using assms
    by (simp add: EstimateNeededSize_def EstimateLoop_entries option.map_comp comp_def)
qed

lemma spaceNeeded_of_mset:
  assumes "mset (entries s) = mset (entries t)"
  shows "spaceNeeded_of s = spaceNeeded_of t"
proof -
  have "spaceNeeded_of u = sum_mset (image_mset (\<lambda>t. size_x (snd t) * size_y (snd t)) (mset (entries u)))" for u
    by (simp add: spaceNeeded_of_sum sum_mset_sum_list [symmetric])
  then show ?thesis using assms by simp
qed

lemma sort_key_fst_mset:
  assumes "mset es1 = mset es2" "distinct (map fst es1)"
  shows "sort_key fst es1 = sort_key fst es2"
proof (rule sort_key_inj_key_eq)
  show "mset es1 = mset (sort_key fst es2)" using assms(1) by simp
  show "inj_on fst (set es1)" using assms(2) by (simp add: distinct_map)
  show "sorted (map fst (sort_key fst es2))" by simp
qed

lemma memtextures_of_mset:
  assumes "mset (entries s) = mset (entries t)" "distinct (map fst (entries s))"
  shows "memtextures_of s = memtextures_of t"
  using sort_key_fst_mset [OF assms] by (simp add: memtextures_of_def)

lemma AddRow_entries_unchanged:
  assumes "AddRow s w h = Some (r, s')"
  shows "entries s' = entries s"
proof -
  from AddRow_trace [OF assms] obtain k where
    "let t = (ResizeTexture ^^ k) s
      in if atlasSize_y t < nextRowPos s + h then at_max t \<and> r = None \<and> s' = t
         else r = Some (length (imageRows s)) \<and>
              s' = t\<lparr>imageRows := imageRows s @
                       [\<lparr>position = nextRowPos s, height = h, width = 0\<rparr>],
                     nextRowPos := nextRowPos s + h\<rparr>"
    by blast
  then show ?thesis by (auto simp: Let_def split: if_splits)
qed

lemma FindRow_entries_unchanged:
  assumes "FindRow s w h = Some (r, s')"
  shows "entries s' = entries s"
  using FindRow_cases [of s w h] assms AddRow_entries_unchanged
  by (metis Pair_inject option.inject)

lemma mset_set_texCoords:
  "mset (set_texCoords k tc es) =
     image_mset (\<lambda>(k', e). if k' = k then (k', e\<lparr>texCoords := tc\<rparr>) else (k', e)) (mset es)"
  by (simp add: set_texCoords_def)

lemma place_one_perm:
  assumes "mset (entries s) = mset es"
  shows "rel_option (\<lambda>a b. fst a = fst b \<and> mset (entries (snd a)) = mset (entries (snd b)) \<and>
            snd b = (snd a)\<lparr>entries := entries (snd b)\<rparr>)
          (place_one tex padding s) (place_one tex padding (s\<lparr>entries := es\<rparr>))"
proof (cases "FindRow s (size_x (snd tex) + padding) (size_y (snd tex) + padding)")
  case None
  then show ?thesis by (simp add: place_one_def FindRow_entries)
next
  case (Some a)
  obtain r s1 where a: "a = (r, s1)" by (cases a)
  have e: "entries s1 = entries s"
    using Some a FindRow_entries_unchanged by blast
  show ?thesis
  proof (cases r)
    case None
    then show ?thesis using Some a e assms by (simp add: place_one_def FindRow_entries)
  next
    case (Some i)
    then show ?thesis using \<open>FindRow s _ _ = Some a\<close> a e assms
      by (simp add: place_one_def FindRow_entries Let_def mset_set_texCoords)
  qed
qed

lemma place_perm:
  assumes "mset (entries s) = mset es"
  shows "rel_option same_layout (place ms padding ok s) (place ms padding ok (s\<lparr>entries := es\<rparr>))"
  using assms
proof (induction ms arbitrary: s es ok)
  case Nil
  then show ?case by (simp add: same_layout_def)
next
  case (Cons tex ms)
  from place_one_perm [OF Cons.prems, of tex padding]
  show ?case
  proof (cases rule: option.rel_cases)
    case None
    then show ?thesis by simp
  next
    case (Some a b)
    obtain r s1 where a: "a = (r, s1)" by (cases a)
    obtain r' t1 where b: "b = (r', t1)" by (cases b)
    from Some(3) a b have rr: "r' = r" and m: "mset (entries s1) = mset (entries t1)"
      and t1: "t1 = s1\<lparr>entries := entries t1\<rparr>" by simp_all
    from Cons.IH [OF m, of "if r = None then False else ok"]
    have "rel_option same_layout (place ms padding (if r = None then False else ok) s1)
        (place ms padding (if r = None then False else ok) t1)"
      using t1 by simp
    then show ?thesis using Some(1,2) a b rr by (cases r) simp_all
  qed
qed

lemma map_fst_set_texCoords [simp]: "map fst (set_texCoords k tc es) = map fst es"
  by (induction es) (auto simp: set_texCoords_def)

lemma place_one_keys:
  assumes "place_one tex padding s = Some (r, s')"
  shows "map fst (entries s') = map fst (entries s)"
  using assms
proof (cases rule: place_one_cases)
  case fail
  then show ?thesis using FindRow_entries_unchanged by simp
next
  case (ok i s1)
  then show ?thesis using FindRow_entries_unchanged [OF ok(2)] by simp
qed

lemma place_keys:
  assumes "place ms padding success s = Some (ok, s')"
  shows "map fst (entries s') = map fst (entries s)"
proof -
  have "map fst (entries s') = map fst (entries s)"
    using assms
  proof (rule place_invariant [where I = "\<lambda>t. map fst (entries t) = map fst (entries s)"])
    show "map fst (entries s) = map fst (entries s)" ..
  next
    fix tex t r t1
    assume "map fst (entries t) = map fst (entries s)" "place_one tex padding t = Some (r, t1)"
    then show "map fst (entries t1) = map fst (entries s)"
      using place_one_keys by metis
  qed
  then show ?thesis .
qed

lemma Allocate_keys:
  assumes "Allocate s = Some (ok, s')"
  shows "map fst (entries s') = map fst (entries s)"
proof -
  from assms obtain t1 t2 where
    e: "EstimateNeededSize (s\<lparr>atlasSize_y := bit_ceil (atlasSize_y s mod 2 ^ 32)\<rparr>) = Some t1"
    and p: "place (memtextures_of t1) (2 ^ nat (GetNumTexLevels t1)) True t1 = Some (ok, t2)"
    and f: "s' = t2\<lparr>atlasSize_y := nextRowPos t2\<rparr>"
    by (rule Allocate_cases)
  show ?thesis
    using EstimateNeededSize_frame(3) [OF e] place_keys [OF p] by (simp add: f)
qed

lemma Allocate_perm:
  assumes "mset es1 = mset es2" "distinct (map fst es1)"
  shows "rel_option same_layout (Allocate (s\<lparr>entries := es1\<rparr>)) (Allocate (s\<lparr>entries := es2\<rparr>))"
proof -
  let ?y = "bit_ceil (atlasSize_y s mod 2 ^ 32)"
  let ?B1 = "s\<lparr>entries := es1, atlasSize_y := ?y\<rparr>"
  let ?B2 = "s\<lparr>entries := es2, atlasSize_y := ?y\<rparr>"
  have B2: "?B2 = ?B1\<lparr>entries := es2\<rparr>" by (cases s) simp
  have "spaceNeeded_of (?B1\<lparr>entries := es2\<rparr>) = spaceNeeded_of ?B1"
    by (rule spaceNeeded_of_mset) (simp add: assms(1))
  from EstimateNeededSize_entries [OF this]
  have est: "EstimateNeededSize ?B2 = map_option (\<lambda>t. t\<lparr>entries := es2\<rparr>) (EstimateNeededSize ?B1)"
    unfolding B2 .
  have A1: "Allocate (s\<lparr>entries := es1\<rparr>) =
      (case EstimateNeededSize ?B1 of None \<Rightarrow> None
       | Some s1 \<Rightarrow> (case place (memtextures_of s1) (2 ^ nat (GetNumTexLevels s1)) True s1 of
            None \<Rightarrow> None
          | Some (success, s2) \<Rightarrow> Some (success, s2\<lparr>atlasSize_y := nextRowPos s2\<rparr>)))"
    by (simp add: Allocate_def Let_def split: option.splits)
  have A2: "Allocate (s\<lparr>entries := es2\<rparr>) =
      (case EstimateNeededSize ?B2 of None \<Rightarrow> None
       | Some s1 \<Rightarrow> (case place (memtextures_of s1) (2 ^ nat (GetNumTexLevels s1)) True s1 of
            None \<Rightarrow> None
          | Some (success, s2) \<Rightarrow> Some (success, s2\<lparr>atlasSize_y := nextRowPos s2\<rparr>)))"
    by (simp add: Allocate_def Let_def split: option.splits)
  show ?thesis
  proof (cases "EstimateNeededSize ?B1")
    case None
    then show ?thesis using est by (simp add: A1 A2)
  next
    case (Some t1)
    have e1: "entries t1 = es1"
      using EstimateNeededSize_frame(3) [OF Some] by simp
    let ?t2 = "t1\<lparr>entries := es2\<rparr>"
    have m: "mset (entries t1) = mset (entries ?t2)" using e1 assms(1) by simp
    have d: "distinct (map fst (entries t1))" using e1 assms(2) by simp
    have ms: "memtextures_of ?t2 = memtextures_of t1"
      using memtextures_of_mset [OF m d] by simp
    have lv: "GetNumTexLevels ?t2 = GetNumTexLevels t1"
      by (simp add: GetNumTexLevels_def)
    have "mset (entries t1) = mset es2" using e1 assms(1) by simp
    from place_perm [OF this, of "memtextures_of t1" "2 ^ nat (GetNumTexLevels t1)" True]
    have "rel_option same_layout
        (place (memtextures_of t1) (2 ^ nat (GetNumTexLevels t1)) True t1)
        (place (memtextures_of t1) (2 ^ nat (GetNumTexLevels t1)) True ?t2)" .
    then have "rel_option same_layout
        (case place (memtextures_of t1) (2 ^ nat (GetNumTexLevels t1)) True t1 of
            None \<Rightarrow> None
          | Some (success, s2) \<Rightarrow> Some (success, s2\<lparr>atlasSize_y := nextRowPos s2\<rparr>))
        (case place (memtextures_of t1) (2 ^ nat (GetNumTexLevels t1)) True ?t2 of
            None \<Rightarrow> None
          | Some (success, s2) \<Rightarrow> Some (success, s2\<lparr>atlasSize_y := nextRowPos s2\<rparr>))"
    proof (cases rule: option.rel_cases)
      case None
      then show ?thesis by simp
    next
      case (Some a b)
      obtain ok1 u1 where a: "a = (ok1, u1)" by (cases a)
      obtain ok2 u2 where b: "b = (ok2, u2)" by (cases b)
      from Some(3) a b have "ok1 = ok2" "mset (entries u1) = mset (entries u2)"
        "u2 = u1\<lparr>entries := entries u2\<rparr>"
        by (simp_all add: same_layout_def)
      then have "same_layout (ok1, u1\<lparr>atlasSize_y := nextRowPos u1\<rparr>)
          (ok2, u2\<lparr>atlasSize_y := nextRowPos u2\<rparr>)"
        unfolding same_layout_def
        by (metis (no_types, lifting) fst_conv snd_conv CRowAtlasAlloc.simps(1,8) CRowAtlasAlloc.update_convs(1,3)
            CRowAtlasAlloc.surjective)
      then show ?thesis using Some(1,2) a b by simp
    qed
    then show ?thesis using Some est by (simp add: A1 A2 ms lv)
  qed
qed

text \<open>
  C8.  Two allocators that differ only in the order in which the registry hands out the
  same entries (the names are pairwise different) behave alike: either neither call of
  \<open>Allocate\<close> returns, or both return, with the same success flag, the same surface
  size, the same rows, and the same entry, with the same rectangle, under every name.
\<close>

theorem allocate_order_independent:
  assumes "mset es1 = mset es2" "distinct (map fst es1)"
  shows "rel_option same_layout (Allocate (s\<lparr>entries := es1\<rparr>)) (Allocate (s\<lparr>entries := es2\<rparr>)) \<and>
    (\<forall>ok1 s1 ok2 s2.
       Allocate (s\<lparr>entries := es1\<rparr>) = Some (ok1, s1) \<longrightarrow>
       Allocate (s\<lparr>entries := es2\<rparr>) = Some (ok2, s2) \<longrightarrow>
         ok1 = ok2 \<and> atlasSize_x s1 = atlasSize_x s2 \<and> atlasSize_y s1 = atlasSize_y s2 \<and>
         map_of (entries s1) = map_of (entries s2))"
proof (intro conjI allI impI)
  show rel: "rel_option same_layout (Allocate (s\<lparr>entries := es1\<rparr>)) (Allocate (s\<lparr>entries := es2\<rparr>))"
    using assms by (rule Allocate_perm)
  fix ok1 s1 ok2 s2
  assume a1: "Allocate (s\<lparr>entries := es1\<rparr>) = Some (ok1, s1)"
    and a2: "Allocate (s\<lparr>entries := es2\<rparr>) = Some (ok2, s2)"
  from rel a1 a2 have sl: "same_layout (ok1, s1) (ok2, s2)" by simp
  then show "ok1 = ok2" by (simp add: same_layout_def)
  from sl have s2: "s2 = s1\<lparr>entries := entries s2\<rparr>" by (simp add: same_layout_def)
  show "atlasSize_x s1 = atlasSize_x s2" by (subst s2) simp
  show "atlasSize_y s1 = atlasSize_y s2" by (subst s2) simp
  from sl have m: "mset (entries s1) = mset (entries s2)" by (simp add: same_layout_def)
  have d1: "distinct (map fst (entries s1))"
    using Allocate_keys [OF a1] assms(2) by simp
  have "mset (map fst (entries s2)) = mset (map fst (entries s1))"
    using m by (metis mset_map)
  then have d2: "distinct (map fst (entries s2))"
    using d1 by (metis mset_eq_imp_distinct_iff)
  from m have "set (entries s1) = set (entries s2)" by (rule mset_eq_setD)
  then show "map_of (entries s1) = map_of (entries s2)"
    using map_of_inject_set [OF d1 d2] by simp
qed

theorem allocate_order_independent_witness:
  "mset (entries scenario) = mset scenario_sorted \<and> distinct (map fst (entries scenario)) \<and>
   entries scenario \<noteq> scenario_sorted \<and>
   Allocate scenario = Some (True, scenario_result) \<and>
   (\<exists>s2. Allocate (scenario\<lparr>entries := scenario_sorted\<rparr>) = Some (True, s2) \<and>
      atlasSize_x s2 = 64 \<and> atlasSize_y s2 = 56 \<and>
      map_of (entries s2) = map_of (entries scenario_result))"
proof -
  have m: "mset (entries scenario) = mset scenario_sorted"
    and d: "distinct (map fst (entries scenario))"
    and n: "entries scenario \<noteq> scenario_sorted"
    by (simp_all add: scenario_def scenario_sorted_def mk_alloc_def mk_entry_def)
  have e: "Allocate (scenario\<lparr>entries := entries scenario\<rparr>) = Some (True, scenario_result)"
    using scenario_eval by simp
  from allocate_order_independent [OF m d, of scenario]
  have rel: "rel_option same_layout (Allocate (scenario\<lparr>entries := entries scenario\<rparr>))
      (Allocate (scenario\<lparr>entries := scenario_sorted\<rparr>))"
    and eq: "\<And>ok1 s1 ok2 s2.
       Allocate (scenario\<lparr>entries := entries scenario\<rparr>) = Some (ok1, s1) \<Longrightarrow>
       Allocate (scenario\<lparr>entries := scenario_sorted\<rparr>) = Some (ok2, s2) \<Longrightarrow>
         ok1 = ok2 \<and> atlasSize_x s1 = atlasSize_x s2 \<and> atlasSize_y s1 = atlasSize_y s2 \<and>
         map_of (entries s1) = map_of (entries s2)"
    by blast+
  from rel e obtain b where b: "Allocate (scenario\<lparr>entries := scenario_sorted\<rparr>) = Some b"
    by (cases "Allocate (scenario\<lparr>entries := scenario_sorted\<rparr>)") auto
  obtain ok2 s2 where "b = (ok2, s2)" by (cases b)
  with b have a2: "Allocate (scenario\<lparr>entries := scenario_sorted\<rparr>) = Some (ok2, s2)" by simp
  from eq [OF e a2] have "ok2 = True" "atlasSize_x s2 = 64" "atlasSize_y s2 = 56"
    "map_of (entries s2) = map_of (entries scenario_result)"
    by (simp_all add: scenario_result_def)
  with a2 m d n scenario_eval show ?thesis by auto
qed

section \<open>Partial failure\<close>






lemma find_for_deterministic_row:
  "place_one tex padding s = Some (r, s') \<Longrightarrow> find_for tex padding s = Some (r', s1) \<Longrightarrow> r' = r"
  by (auto simp: place_one_def find_for_def Let_def split: option.splits)




end
